theory Spec2Isabelle
  imports Main "HOL-Library.Sublist"
begin

section \<open>The JavaScript values the component handles\<close>

text \<open>
  The component is a custom element written in TypeScript
  (\<^verbatim>\<open>solar-logo-ticker.ts\<close>, compiled to \<^verbatim>\<open>solar-logo-ticker.js\<close>). Its logo list
  is whatever \<^verbatim>\<open>JSON.parse\<close> returns, so the embedding carries JavaScript values of
  every shape, not only well-typed logo arrays.

  Strings are \<^typ>\<open>string\<close>: one \<^typ>\<open>char\<close> per UTF-16 code unit, for the code units
  \<open>0x00\<close> to \<open>0xFF\<close>.

  Numbers are IEEE doubles in the program. Every finite double is a finite decimal, so
  a finite number is written \<open>Dec m e\<close>, standing for \<open>m * 10 ^ e\<close>; the value is kept
  exactly (rounding of literals with more than 15 significant digits, overflow to
  \<open>Infinity\<close> and underflow to zero are not modelled). Positive and negative zero are
  both \<open>Dec 0 e\<close>: the program only tests numbers for truthiness and prints them, and
  the two zeros agree on both.
\<close>

datatype number = NaN | PosInf | NegInf | Dec int int

datatype jsval =
    JUndefined
  | JNull
  | JBool bool
  | JNumber number
  | JString string
  | JArray "jsval list"
  | JObject "(string \<times> jsval) list"

text \<open>Exceptions are values; a computation that may throw returns \<open>error + 'a\<close>.\<close>

datatype error = TypeError | SyntaxError

definition bindE :: "error + 'a \<Rightarrow> ('a \<Rightarrow> error + 'b) \<Rightarrow> error + 'b" where
  "bindE m f = (case m of Inl e \<Rightarrow> Inl e | Inr x \<Rightarrow> f x)"

subsection \<open>Printing numbers (\<^verbatim>\<open>Number::toString\<close>)\<close>

definition digit_char :: "nat \<Rightarrow> char" where
  "digit_char d = char_of (48 + d)"

fun dec_digits :: "nat \<Rightarrow> string" where
  "dec_digits n =
     (if n < 10 then [digit_char n] else dec_digits (n div 10) @ [digit_char (n mod 10)])"

declare dec_digits.simps [simp del]

text \<open>Trailing zeros of the mantissa move into the exponent.\<close>

function strip_zeros :: "nat \<Rightarrow> int \<Rightarrow> nat \<times> int" where
  "strip_zeros m e =
     (if m \<noteq> 0 \<and> m mod 10 = 0 then strip_zeros (m div 10) (e + 1) else (m, e))"
  by pat_completeness auto
termination
  by (relation "measure (\<lambda>(m, e). m)") auto

declare strip_zeros.simps [simp del]

text \<open>
  ECMAScript \<^verbatim>\<open>Number::toString\<close> for a positive number whose shortest digit string
  is \<open>ds\<close> (\<open>k\<close> digits) and whose decimal point stands after digit \<open>n\<close>.
\<close>

definition format_digits :: "string \<Rightarrow> int \<Rightarrow> string" where
  "format_digits ds n =
     (let k = int (length ds) in
      if k \<le> n \<and> n \<le> 21 then ds @ replicate (nat (n - k)) CHR ''0''
      else if 0 < n \<and> n \<le> 21 then take (nat n) ds @ ''.'' @ drop (nat n) ds
      else if -6 < n \<and> n \<le> 0 then ''0.'' @ replicate (nat (- n)) CHR ''0'' @ ds
      else
        (let ex = n - 1;
             sgn = (if ex < 0 then ''-'' else ''+'');
             es = dec_digits (nat \<bar>ex\<bar>)
         in if k = 1 then ds @ ''e'' @ sgn @ es
            else take 1 ds @ ''.'' @ drop 1 ds @ ''e'' @ sgn @ es))"

definition Number_toString :: "number \<Rightarrow> string" where
  "Number_toString x =
     (case x of
        NaN \<Rightarrow> ''NaN''
      | PosInf \<Rightarrow> ''Infinity''
      | NegInf \<Rightarrow> ''-Infinity''
      | Dec m e \<Rightarrow>
          if m = 0 then ''0''
          else (if m < 0 then ''-'' else '''') @
               (case strip_zeros (nat \<bar>m\<bar>) e of
                  (s, e') \<Rightarrow> format_digits (dec_digits s) (int (length (dec_digits s)) + e')))"

subsection \<open>Conversions and property access\<close>

text \<open>\<^verbatim>\<open>ToBoolean\<close>: what \<^verbatim>\<open>x ? a : b\<close> and \<^verbatim>\<open>x || y\<close> test.\<close>

fun number_truthy :: "number \<Rightarrow> bool" where
  "number_truthy NaN = False"
| "number_truthy PosInf = True"
| "number_truthy NegInf = True"
| "number_truthy (Dec m e) = (m \<noteq> 0)"

fun ToBoolean :: "jsval \<Rightarrow> bool" where
  "ToBoolean JUndefined = False"
| "ToBoolean JNull = False"
| "ToBoolean (JBool b) = b"
| "ToBoolean (JNumber n) = number_truthy n"
| "ToBoolean (JString s) = (s \<noteq> [])"
| "ToBoolean (JArray xs) = True"
| "ToBoolean (JObject ms) = True"

text \<open>
  \<^verbatim>\<open>ToString\<close>, as a template literal applies it to \<^verbatim>\<open>${...}\<close>. An array prints as
  its elements joined by commas (\<^verbatim>\<open>null\<close> and \<^verbatim>\<open>undefined\<close> elements print as
  nothing). An object built by \<^verbatim>\<open>JSON.parse\<close> prints as \<^verbatim>\<open>[object Object]\<close> through
  \<^verbatim>\<open>Object.prototype.toString\<close>, unless it has an own property \<^verbatim>\<open>toString\<close>:
  that property holds data, is not callable, and \<^verbatim>\<open>valueOf\<close> gives no primitive, so the
  conversion throws a TypeError.
\<close>

fun ToString :: "jsval \<Rightarrow> error + string"
  and join_comma :: "jsval list \<Rightarrow> error + string" where
  "ToString JUndefined = Inr ''undefined''"
| "ToString JNull = Inr ''null''"
| "ToString (JBool b) = Inr (if b then ''true'' else ''false'')"
| "ToString (JNumber n) = Inr (Number_toString n)"
| "ToString (JString s) = Inr s"
| "ToString (JArray xs) = join_comma xs"
| "ToString (JObject ms) =
     (if ''toString'' \<in> fst ` set ms then Inl TypeError else Inr ''[object Object]'')"
| "join_comma [] = Inr []"
| "join_comma (x # xs) =
     (case (if x = JUndefined \<or> x = JNull then Inr [] else ToString x) of
        Inl e \<Rightarrow> Inl e
      | Inr a \<Rightarrow>
          (if xs = [] then Inr a
           else case join_comma xs of Inl e \<Rightarrow> Inl e | Inr b \<Rightarrow> Inr (a @ '','' @ b)))"

text \<open>
  \<^verbatim>\<open>item.p\<close> for the property names the component reads (\<^verbatim>\<open>name\<close>, \<^verbatim>\<open>logo\<close>,
  \<^verbatim>\<open>scale\<close>, \<^verbatim>\<open>needsGlow\<close>), none of which a built-in prototype defines: reading a
  property of \<^verbatim>\<open>null\<close> or \<^verbatim>\<open>undefined\<close> throws, an object gives its own property
  or \<^verbatim>\<open>undefined\<close>, every other value gives \<^verbatim>\<open>undefined\<close>.
\<close>

fun Get :: "jsval \<Rightarrow> string \<Rightarrow> error + jsval" where
  "Get JUndefined p = Inl TypeError"
| "Get JNull p = Inl TypeError"
| "Get (JObject ms) p = Inr (case map_of ms p of Some v \<Rightarrow> v | None \<Rightarrow> JUndefined)"
| "Get v p = Inr JUndefined"

text \<open>
  The spread \<^verbatim>\<open>[...items]\<close> iterates its operand: an array gives its elements, a
  string its characters, and any other value JSON can denote is not iterable.
\<close>

fun spread :: "jsval \<Rightarrow> error + jsval list" where
  "spread (JArray xs) = Inr xs"
| "spread (JString s) = Inr (map (\<lambda>c. JString [c]) s)"
| "spread v = Inl TypeError"

section \<open>The platform functions the component calls\<close>

subsection \<open>Reading digits\<close>

definition is_digit :: "char \<Rightarrow> bool" where
  "is_digit c = (48 \<le> (of_char c :: nat) \<and> (of_char c :: nat) \<le> 57)"

definition digit_val :: "char \<Rightarrow> nat" where
  "digit_val c = of_char c - 48"

definition digits_val :: "string \<Rightarrow> nat" where
  "digits_val ds = foldl (\<lambda>n c. 10 * n + digit_val c) 0 ds"

text \<open>
  An optional exponent part \<^verbatim>\<open>e\<close>, \<^verbatim>\<open>E\<close> with an optional sign and at least one
  digit: its value and the rest of the input, or nothing when the input does not start
  with one.
\<close>

definition exponent_part :: "string \<Rightarrow> (int \<times> string) option" where
  "exponent_part cs =
     (case cs of
        [] \<Rightarrow> None
      | c # r \<Rightarrow>
          if c = CHR ''e'' \<or> c = CHR ''E'' then
            (let neg = (r \<noteq> [] \<and> hd r = CHR ''-'');
                 r' = (if r \<noteq> [] \<and> (hd r = CHR ''-'' \<or> hd r = CHR ''+'') then tl r else r);
                 ds = takeWhile is_digit r'
             in if ds = [] then None
                else Some ((if neg then - int (digits_val ds) else int (digits_val ds)),
                           dropWhile is_digit r'))
          else None)"

subsection \<open>\<^verbatim>\<open>parseFloat\<close>\<close>

text \<open>
  \<^verbatim>\<open>parseFloat\<close> skips leading white space and reads the longest prefix that is a
  decimal literal (\<^verbatim>\<open>StrDecimalLiteral\<close>: an optional sign, then \<^verbatim>\<open>Infinity\<close> or
  digits with an optional fraction and exponent); what follows the prefix is ignored,
  and no such prefix gives \<^verbatim>\<open>NaN\<close>.
\<close>

definition is_white_space :: "char \<Rightarrow> bool" where
  "is_white_space c =
     (c \<in> {CHR 0x09, CHR 0x0A, CHR 0x0B, CHR 0x0C, CHR 0x0D, CHR 0x20, CHR 0xA0})"

definition parseFloat :: "string \<Rightarrow> number" where
  "parseFloat s =
     (let t = dropWhile is_white_space s;
          neg = (t \<noteq> [] \<and> hd t = CHR ''-'');
          r = (if t \<noteq> [] \<and> (hd t = CHR ''-'' \<or> hd t = CHR ''+'') then tl t else t)
      in if prefix ''Infinity'' r then (if neg then NegInf else PosInf)
         else
           (let ip = takeWhile is_digit r;
                r1 = dropWhile is_digit r;
                fp = (if r1 \<noteq> [] \<and> hd r1 = CHR ''.'' then takeWhile is_digit (tl r1) else []);
                r2 = (if r1 \<noteq> [] \<and> hd r1 = CHR ''.'' then dropWhile is_digit (tl r1) else r1)
            in if ip = [] \<and> fp = [] then NaN
               else
                 (let m = int (digits_val (ip @ fp));
                      ex = (case exponent_part r2 of None \<Rightarrow> 0 | Some (x, rest) \<Rightarrow> x)
                  in Dec (if neg then - m else m) (ex - int (length fp)))))"

subsection \<open>\<^verbatim>\<open>JSON.parse\<close>\<close>

text \<open>
  The JSON grammar of ECMA-404, as \<^verbatim>\<open>JSON.parse\<close> reads it with no reviver: a lexer
  from characters to tokens, then a parser over the tokens that keeps the open arrays
  and objects on a stack. A text outside the grammar is a SyntaxError.
\<close>

datatype token =
    TLBracket | TRBracket | TLBrace | TRBrace | TComma | TColon
  | TScalar jsval

definition hex_val :: "char \<Rightarrow> nat option" where
  "hex_val c =
     (if is_digit c then Some (of_char c - 48)
      else if 97 \<le> (of_char c :: nat) \<and> (of_char c :: nat) \<le> 102 then Some (of_char c - 87)
      else if 65 \<le> (of_char c :: nat) \<and> (of_char c :: nat) \<le> 70 then Some (of_char c - 55)
      else None)"

definition unescape :: "char \<Rightarrow> char option" where
  "unescape c =
     (if c = CHR 0x22 \<or> c = CHR 0x5C \<or> c = CHR ''/'' then Some c
      else if c = CHR ''b'' then Some (CHR 0x08)
      else if c = CHR ''f'' then Some (CHR 0x0C)
      else if c = CHR ''n'' then Some (CHR 0x0A)
      else if c = CHR ''r'' then Some (CHR 0x0D)
      else if c = CHR ''t'' then Some (CHR 0x09)
      else None)"

text \<open>
  The characters of a string literal after its opening quote, up to the closing quote.
  A \<^verbatim>\<open>\uXXXX\<close> escape denotes the code unit \<open>XXXX\<close>; the embedding's characters end
  at \<open>0xFF\<close>, and an escape above that is kept by its low byte.
\<close>

fun lex_string :: "string \<Rightarrow> string \<Rightarrow> (string \<times> string) option" where
  "lex_string acc [] = None"
| "lex_string acc (c # cs) =
     (if c = CHR 0x22 then Some (rev acc, cs)
      else if c = CHR 0x5C then
        (case cs of
           [] \<Rightarrow> None
         | x # r \<Rightarrow>
             if x = CHR ''u'' then
               (case r of
                  h1 # h2 # h3 # h4 # r' \<Rightarrow>
                    (case (hex_val h1, hex_val h2, hex_val h3, hex_val h4) of
                       (Some a, Some b, Some c, Some d) \<Rightarrow>
                         lex_string (char_of (((a * 16 + b) * 16 + c) * 16 + d) # acc) r'
                     | _ \<Rightarrow> None)
                | _ \<Rightarrow> None)
             else (case unescape x of
                     Some ch \<Rightarrow> lex_string (ch # acc) r
                   | None \<Rightarrow> None))
      else if (of_char c :: nat) < 32 then None
      else lex_string (c # acc) cs)"

text \<open>
  A number literal: an optional minus, an integer part with no leading zero, an optional
  fraction with at least one digit, an optional exponent.
\<close>

definition lex_number :: "string \<Rightarrow> (number \<times> string) option" where
  "lex_number cs =
     (let neg = (cs \<noteq> [] \<and> hd cs = CHR ''-'');
          r = (if neg then tl cs else cs);
          ip = takeWhile is_digit r;
          r1 = dropWhile is_digit r
      in if ip = [] \<or> (1 < length ip \<and> hd ip = CHR ''0'') then None
         else
           (let has_frac = (r1 \<noteq> [] \<and> hd r1 = CHR ''.'');
                fp = (if has_frac then takeWhile is_digit (tl r1) else []);
                r2 = (if has_frac then dropWhile is_digit (tl r1) else r1)
            in if has_frac \<and> fp = [] then None
               else
                 (let m = int (digits_val (ip @ fp));
                      m' = (if neg then - m else m)
                  in if r2 \<noteq> [] \<and> (hd r2 = CHR ''e'' \<or> hd r2 = CHR ''E'') then
                       (case exponent_part r2 of
                          None \<Rightarrow> None
                        | Some (x, r3) \<Rightarrow> Some (Dec m' (x - int (length fp)), r3))
                     else Some (Dec m' (- int (length fp)), r2))))"

definition is_json_space :: "char \<Rightarrow> bool" where
  "is_json_space c = (c \<in> {CHR 0x09, CHR 0x0A, CHR 0x0D, CHR 0x20})"

text \<open>The token at the head of a non-empty input, and the input after it.\<close>

definition next_token :: "string \<Rightarrow> (token \<times> string) option" where
  "next_token cs =
     (case cs of
        [] \<Rightarrow> None
      | c # r \<Rightarrow>
          if c = CHR ''['' then Some (TLBracket, r)
          else if c = CHR '']'' then Some (TRBracket, r)
          else if c = CHR ''{'' then Some (TLBrace, r)
          else if c = CHR ''}'' then Some (TRBrace, r)
          else if c = CHR '','' then Some (TComma, r)
          else if c = CHR '':'' then Some (TColon, r)
          else if c = CHR 0x22 then
            (case lex_string [] r of
               None \<Rightarrow> None
             | Some (s, r') \<Rightarrow> Some (TScalar (JString s), r'))
          else if c = CHR ''-'' \<or> is_digit c then
            (case lex_number cs of
               None \<Rightarrow> None
             | Some (n, r') \<Rightarrow> Some (TScalar (JNumber n), r'))
          else if prefix ''true'' cs then Some (TScalar (JBool True), drop 4 cs)
          else if prefix ''false'' cs then Some (TScalar (JBool False), drop 5 cs)
          else if prefix ''null'' cs then Some (TScalar JNull, drop 4 cs)
          else None)"

lemma lex_string_shorter:
  "lex_string acc cs = Some (s, r) \<Longrightarrow> length r < length cs"
proof (induction cs arbitrary: acc rule: length_induct)
  case (1 cs)
  note IH = "1.IH" [rule_format]
  show ?case
  proof (cases cs)
    case Nil
    with "1.prems" show ?thesis by simp
  next
    case (Cons c cs')
    consider (quote) "c = CHR 0x22"
      | (esc) "c \<noteq> CHR 0x22" "c = CHR 0x5C"
      | (plain) "c \<noteq> CHR 0x22" "c \<noteq> CHR 0x5C"
      by blast
    then show ?thesis
    proof cases
      case quote
      with "1.prems" Cons show ?thesis by simp
    next
      case plain
      with "1.prems" Cons have "lex_string (c # acc) cs' = Some (s, r)"
        by (simp split: if_splits)
      from IH [OF _ this] Cons show ?thesis by simp
    next
      case esc
      with "1.prems" Cons obtain x r0 where r0: "cs' = x # r0"
        by (cases cs') auto
      show ?thesis
      proof (cases "x = CHR ''u''")
        case False
        with "1.prems" Cons esc r0 obtain ch where "lex_string (ch # acc) r0 = Some (s, r)"
          by (auto split: option.splits)
        from IH [OF _ this] Cons r0 show ?thesis by simp
      next
        case True
        with "1.prems" Cons esc r0 obtain h1 h2 h3 h4 r' where r': "r0 = h1 # h2 # h3 # h4 # r'"
          by (auto split: list.splits)
        with True "1.prems" Cons esc r0 obtain ch where "lex_string (ch # acc) r' = Some (s, r)"
          by (auto split: option.splits)
        from IH [OF _ this] Cons r0 r' show ?thesis by simp
      qed
    qed
  qed
qed


lemma exponent_part_shorter:
  assumes "exponent_part cs = Some (x, r)"
  shows "length r < length cs"
proof -
  from assms obtain c r0 where cs: "cs = c # r0"
    by (cases cs) (auto simp: exponent_part_def)
  let ?r' = "if r0 \<noteq> [] \<and> (hd r0 = CHR ''-'' \<or> hd r0 = CHR ''+'') then tl r0 else r0"
  from assms cs have "r = dropWhile is_digit ?r'"
    by (auto simp: exponent_part_def Let_def split: if_splits)
  moreover have "length (dropWhile is_digit ?r') \<le> length ?r'"
    by (rule length_dropWhile_le)
  moreover have "length ?r' \<le> length r0"
    by simp
  ultimately show ?thesis
    using cs by simp
qed


lemma lex_number_shorter:
  assumes "lex_number cs = Some (n, r)"
  shows "length r < length cs"
proof -
  define r0 where "r0 = (if cs \<noteq> [] \<and> hd cs = CHR ''-'' then tl cs else cs)"
  define r1 where "r1 = dropWhile is_digit r0"
  define r2 where
    "r2 = (if r1 \<noteq> [] \<and> hd r1 = CHR ''.'' then dropWhile is_digit (tl r1) else r1)"
  from assms have ip: "takeWhile is_digit r0 \<noteq> []"
    by (auto simp: lex_number_def Let_def r0_def split: if_splits)
  have "length (takeWhile is_digit r0) + length r1 = length r0"
    unfolding r1_def by (metis length_append takeWhile_dropWhile_id)
  with ip have l1: "length r1 < length r0"
    by (cases "takeWhile is_digit r0") auto
  have l0: "length r0 \<le> length cs"
    by (simp add: r0_def)
  have "length (dropWhile is_digit (tl r1)) \<le> length (tl r1)"
    by (rule length_dropWhile_le)
  then have l2: "length r2 \<le> length r1"
    by (auto simp: r2_def)
  from assms have "r = r2 \<or> (\<exists>x. exponent_part r2 = Some (x, r))"
    unfolding lex_number_def Let_def r0_def [symmetric] r1_def [symmetric] r2_def [symmetric]
    by (auto split: if_splits option.splits)
  then have "length r \<le> length r2"
    using exponent_part_shorter by fastforce
  with l0 l1 l2 show ?thesis
    by linarith
qed

lemma next_token_cases:
  assumes "next_token (c # r0) = Some (t, r)"
  shows "r = r0 \<or> (\<exists>s. lex_string [] r0 = Some (s, r)) \<or> (\<exists>n. lex_number (c # r0) = Some (n, r))
      \<or> r = drop 3 r0 \<or> r = drop 4 r0"
  using assms unfolding next_token_def list.case
  by (simp split: if_splits option.splits prod.splits)


lemma next_token_shorter:
  assumes "next_token cs = Some (t, r)"
  shows "length r < length cs"
proof -
  from assms obtain c r0 where cs: "cs = c # r0"
    by (cases cs) (simp_all add: next_token_def)
  from next_token_cases [OF assms [unfolded cs]]
  consider "r = r0" | s where "lex_string [] r0 = Some (s, r)"
    | n where "lex_number cs = Some (n, r)" | "r = drop 3 r0" | "r = drop 4 r0"
    using cs by blast
  then show ?thesis
  proof cases
    case 1
    with cs show ?thesis by simp
  next
    case 2
    from lex_string_shorter [OF this] cs show ?thesis by simp
  next
    case 3
    from lex_number_shorter [OF this] show ?thesis .
  next
    case 4
    with cs show ?thesis by simp
  next
    case 5
    with cs show ?thesis by simp
  qed
qed

function lex :: "string \<Rightarrow> token list option" where
  "lex cs =
     (case dropWhile is_json_space cs of
        [] \<Rightarrow> Some []
      | c # r \<Rightarrow>
          (case next_token (c # r) of
             None \<Rightarrow> None
           | Some (t, r') \<Rightarrow> map_option ((#) t) (lex r')))"
  by pat_completeness auto
termination
proof (relation "measure length")
  fix cs :: string and c r x t r'
  assume "dropWhile is_json_space cs = c # r" "next_token (c # r) = Some x" "(t, r') = x"
  then have "length r' < length (dropWhile is_json_space cs)"
    using next_token_shorter [of "c # r" t r'] by simp
  then show "(r', cs) \<in> measure length"
    using length_dropWhile_le [of is_json_space cs] by simp
qed simp

declare lex.simps [simp del]

text \<open>
  The parser. A frame is an array or object that is still open; \<open>AfterKey\<close> is an
  object whose next member has its key and waits for the value. A property defined
  twice keeps its place and takes the later value.
\<close>

datatype frame =
    InArray "jsval list"
  | InObject "(string \<times> jsval) list"
  | AfterKey "(string \<times> jsval) list" string

datatype pstate =
    ExpectValue
  | ExpectValueOrEnd
  | ExpectKeyOrEnd
  | ExpectKey
  | ExpectColon
  | AfterValue
  | Finished jsval

fun define_property :: "(string \<times> jsval) list \<Rightarrow> string \<Rightarrow> jsval \<Rightarrow> (string \<times> jsval) list" where
  "define_property [] k v = [(k, v)]"
| "define_property (p # ps) k v =
     (if fst p = k then (k, v) # ps else p # define_property ps k v)"

text \<open>A complete value goes to the innermost open frame, or is the result.\<close>

fun deliver :: "jsval \<Rightarrow> frame list \<Rightarrow> (pstate \<times> frame list) option" where
  "deliver v [] = Some (Finished v, [])"
| "deliver v (InArray es # st) = Some (AfterValue, InArray (es @ [v]) # st)"
| "deliver v (AfterKey ms k # st) = Some (AfterValue, InObject (define_property ms k v) # st)"
| "deliver v (InObject ms # st) = None"

definition begin_value :: "frame list \<Rightarrow> token \<Rightarrow> (pstate \<times> frame list) option" where
  "begin_value st t =
     (case t of
        TScalar v \<Rightarrow> deliver v st
      | TLBracket \<Rightarrow> Some (ExpectValueOrEnd, InArray [] # st)
      | TLBrace \<Rightarrow> Some (ExpectKeyOrEnd, InObject [] # st)
      | _ \<Rightarrow> None)"

definition close_array :: "frame list \<Rightarrow> (pstate \<times> frame list) option" where
  "close_array st = (case st of InArray es # st' \<Rightarrow> deliver (JArray es) st' | _ \<Rightarrow> None)"

definition close_object :: "frame list \<Rightarrow> (pstate \<times> frame list) option" where
  "close_object st = (case st of InObject ms # st' \<Rightarrow> deliver (JObject ms) st' | _ \<Rightarrow> None)"

definition read_key :: "frame list \<Rightarrow> token \<Rightarrow> (pstate \<times> frame list) option" where
  "read_key st t =
     (case st of
        InObject ms # st' \<Rightarrow>
          (case t of
             TScalar (JString k) \<Rightarrow> Some (ExpectColon, AfterKey ms k # st')
           | _ \<Rightarrow> None)
      | _ \<Rightarrow> None)"

fun parse_step :: "pstate \<Rightarrow> frame list \<Rightarrow> token \<Rightarrow> (pstate \<times> frame list) option" where
  "parse_step ExpectValue st t = begin_value st t"
| "parse_step ExpectValueOrEnd st t =
     (if t = TRBracket then close_array st else begin_value st t)"
| "parse_step ExpectKeyOrEnd st t =
     (if t = TRBrace then close_object st else read_key st t)"
| "parse_step ExpectKey st t = read_key st t"
| "parse_step ExpectColon st t = (if t = TColon then Some (ExpectValue, st) else None)"
| "parse_step AfterValue st t =
     (case st of
        InArray es # st' \<Rightarrow>
          (if t = TComma then Some (ExpectValue, st)
           else if t = TRBracket then close_array st
           else None)
      | InObject ms # st' \<Rightarrow>
          (if t = TComma then Some (ExpectKey, st)
           else if t = TRBrace then close_object st
           else None)
      | _ \<Rightarrow> None)"
| "parse_step (Finished v) st t = None"

fun parse_tokens :: "pstate \<Rightarrow> frame list \<Rightarrow> token list \<Rightarrow> jsval option" where
  "parse_tokens q st [] = (case q of Finished v \<Rightarrow> Some v | _ \<Rightarrow> None)"
| "parse_tokens q st (t # ts) =
     (case parse_step q st t of
        None \<Rightarrow> None
      | Some (q', st') \<Rightarrow> parse_tokens q' st' ts)"

definition JSON_parse :: "string \<Rightarrow> error + jsval" where
  "JSON_parse s =
     (case lex s of
        None \<Rightarrow> Inl SyntaxError
      | Some ts \<Rightarrow>
          (case parse_tokens ExpectValue [] ts of
             None \<Rightarrow> Inl SyntaxError
           | Some v \<Rightarrow> Inr v))"

section \<open>The component \<^verbatim>\<open>SolarLogoTicker\<close>\<close>

subsection \<open>State\<close>

text \<open>
  The shadow root, as far as the component itself reads and writes it: the HTML source
  its children were last built from (empty when it has none), and the text of its first
  \<^verbatim>\<open><style>\<close> element, if there is one. Parsing the source into elements is the
  platform's work and is not modelled.
\<close>

record shadow_root =
  innerHTML :: string
  styleTag :: "string option"

text \<open>
  The private fields \<^verbatim>\<open>_accent\<close>, \<^verbatim>\<open>_borderColor\<close>, \<^verbatim>\<open>_speed\<close>,
  \<^verbatim>\<open>_direction\<close> and \<^verbatim>\<open>_logos\<close> (an identifier cannot start with an underscore
  here, hence \<open>f_\<close>). An attribute value is \<^verbatim>\<open>null\<close> when the attribute is absent or
  removed, so \<open>f_accent\<close>, which is assigned the raw value, is a \<^typ>\<open>string option\<close>.
  Two fields are instrumentation: \<open>console_errors\<close> collects what is passed to
  \<^verbatim>\<open>console.error\<close>, and \<open>rebuilds\<close> counts the calls of \<^verbatim>\<open>render\<close>.
\<close>

record ticker =
  f_accent :: "string option"
  f_borderColor :: string
  f_speed :: number
  f_direction :: string
  f_logos :: jsval
  shadowRoot :: shadow_root
  console_errors :: "string list"
  rebuilds :: nat

text \<open>A call returns normally or throws; either way it leaves a state behind.\<close>

datatype completion = Normal | Throw error

definition observedAttributes :: "string list" where
  "observedAttributes = [''accent'', ''variant'', ''speed'', ''direction'', ''data-json'']"

subsection \<open>\<^verbatim>\<open>getDefaultLogos\<close>\<close>

text \<open>
  The object literal \<^verbatim>\<open>{ name: n, logo: l }\<close> or \<^verbatim>\<open>{ name: n, logo: l, scale: x }\<close>.
  All entries but one share the same one-pixel image.
\<close>

definition logo_entry :: "string \<Rightarrow> string \<Rightarrow> number option \<Rightarrow> jsval" where
  "logo_entry n l sc =
     JObject ([(''name'', JString n), (''logo'', JString l)] @
              (case sc of None \<Rightarrow> [] | Some x \<Rightarrow> [(''scale'', JNumber x)]))"

definition pixel_png :: string where
  \<open>pixel_png =
     ''data:image/png;base64,iVBORw0KGgoAAAANSUhEUgAAAAEAAAABCAQAAAC1HAwCAAAAC0lEQVR42mNkYAAAAAYAAjCB0C8AAAAASUVORK5CYII=''\<close>

definition mountaineers_png :: string where
  \<open>mountaineers_png =
     ''data:image/png;base64,iVBORw0KGgoAAAANBvcHJvdGlvbi5jb20vdjIvZGF0YS9pbWFnZXMvbW91bnRhaW5lZXJz-white.png''\<close>

definition getDefaultLogos :: jsval where
  "getDefaultLogos = JArray
     [logo_entry ''Arctic Tern Expeditions'' pixel_png (Some (Dec 17 (- 1))),
      logo_entry ''California Marine Sanctuary Foundation'' pixel_png (Some (Dec 16 (- 1))),
      logo_entry ''Converge'' pixel_png None,
      logo_entry ''Discovery Digital Networks'' pixel_png None,
      logo_entry ''Gates Foundation'' pixel_png None,
      logo_entry ''Harvard Kennedy School'' pixel_png (Some (Dec 14 (- 1))),
      logo_entry ''Hawaii Institute of Marine Biology'' pixel_png None,
      logo_entry ''MIT'' pixel_png None,
      logo_entry ''The Mountaineers'' mountaineers_png None,
      logo_entry ''Northeastern University'' pixel_png None,
      logo_entry ''NOAA'' pixel_png None,
      logo_entry ''Orbtl'' pixel_png None,
      logo_entry ''Ocean Youth Academy'' pixel_png None,
      logo_entry ''Reinvent'' pixel_png None,
      logo_entry ''Restore With Resilience'' pixel_png (Some (Dec 12 (- 1))),
      logo_entry ''Seeker'' pixel_png None,
      logo_entry ''Smithsonian'' pixel_png (Some (Dec 16 (- 1))),
      logo_entry ''The Nature Conservancy'' pixel_png (Some (Dec 16 (- 1))),
      logo_entry ''The Verge'' pixel_png None,
      logo_entry ''Vox'' pixel_png None,
      logo_entry ''Watt'' pixel_png None,
      logo_entry ''Yale'' pixel_png None,
      logo_entry ''Yuba Trails Stewardship'' pixel_png (Some (Dec 17 (- 1)))]"

subsection \<open>\<^verbatim>\<open>getStyles\<close>\<close>

text \<open>
  \<^verbatim>\<open>s.replace(pat, rep)\<close> with a string pattern: the first occurrence of \<open>pat\<close> is
  replaced. (The replacement used here, \<^verbatim>\<open>"0.1"\<close>, has no \<^verbatim>\<open>$\<close>, so it is
  inserted as it is.)
\<close>

fun String_replace :: "string \<Rightarrow> string \<Rightarrow> string \<Rightarrow> string" where
  "String_replace [] pat rep = (if pat = [] then rep else [])"
| "String_replace (c # cs) pat rep =
     (if prefix pat (c # cs) then rep @ drop (length pat) (c # cs)
      else c # String_replace cs pat rep)"

text \<open>The fixed text of the style sheet, cut at its four interpolations.\<close>

definition styles_to_accent :: string where
  \<open>styles_to_accent =
     ''\<newline>'' @
     ''      :host {\<newline>'' @
     ''        display: block;\<newline>'' @
     ''        contain: content;\<newline>'' @
     ''        font-family: inherit;\<newline>'' @
     ''        -webkit-font-smoothing: antialiased;\<newline>'' @
     ''        -moz-osx-font-smoothing: grayscale;\<newline>'' @
     ''      }\<newline>'' @
     ''\<newline>'' @
     ''      .logo-ticker-section {\<newline>'' @
     ''        padding-top: 3rem;   /* py-12 */\<newline>'' @
     ''        padding-bottom: 3rem; /* py-12 */\<newline>'' @
     ''        margin-top: -2rem; /* -mt-8 */\<newline>'' @
     ''        overflow: hidden;\<newline>'' @
     ''      }\<newline>'' @
     ''\<newline>'' @
     ''      .logo-ticker-container {\<newline>'' @
     ''        max-width: 80rem; /* max-w-7xl */\<newline>'' @
     ''        margin-left: auto;\<newline>'' @
     ''        margin-right: auto;\<newline>'' @
     ''        padding-left: 1.5rem; /* px-6 */\<newline>'' @
     ''        padding-right: 1.5rem; /* px-6 */\<newline>'' @
     ''        padding-top: 2rem; /* py-8 */\<newline>'' @
     ''        padding-bottom: 2rem; /* py-8 */\<newline>'' @
     ''        border-radius: 1rem; /* rounded-2xl */\<newline>'' @
     ''        background: linear-gradient(180deg, ''\<close>

definition styles_accent_to_lighter :: string where
  \<open>styles_accent_to_lighter =
     '' 0%, ''\<close>

definition styles_lighter_to_border :: string where
  \<open>styles_lighter_to_border =
     '' 100%);\<newline>'' @
     ''        border: 1px solid ''\<close>

definition styles_border_to_speed :: string where
  \<open>styles_border_to_speed =
     '';\<newline>'' @
     ''      }\<newline>'' @
     ''\<newline>'' @
     ''      .logo-carousel-mask {\<newline>'' @
     ''        position: relative;\<newline>'' @
     ''        mask-image: linear-gradient(to right, transparent, black 8%, black 92%, transparent);\<newline>'' @
     ''        -webkit-mask-image: linear-gradient(to right, transparent, black 8%, black 92%, transparent);\<newline>'' @
     ''        overflow: hidden; /* Ensure mask applies correctly */\<newline>'' @
     ''      }\<newline>'' @
     ''\<newline>'' @
     ''      .logo-ticker-row {\<newline>'' @
     ''        display: flex;\<newline>'' @
     ''        align-items: center;\<newline>'' @
     ''        gap: 3.5rem; /* gap-14 */\<newline>'' @
     ''        animation: scroll-left var(--ticker-speed, 90s) linear infinite;\<newline>'' @
     ''      }\<newline>'' @
     ''\<newline>'' @
     ''      :host([direction="right"]) .logo-ticker-row {\<newline>'' @
     ''        animation: scroll-right var(--ticker-speed, 90s) linear infinite;\<newline>'' @
     ''      }\<newline>'' @
     ''      \<newline>'' @
     ''      .logo-item-wrapper {\<newline>'' @
     ''        flex-shrink: 0;\<newline>'' @
     ''        display: flex;\<newline>'' @
     ''        align-items: center;\<newline>'' @
     ''        justify-content: center;\<newline>'' @
     ''        padding-left: 0.5rem; /* px-2 */\<newline>'' @
     ''        padding-right: 0.5rem; /* px-2 */\<newline>'' @
     ''        overflow: visible; /* Prevent clipping of glow, if any */\<newline>'' @
     ''      }\<newline>'' @
     ''\<newline>'' @
     ''      .logo-item {\<newline>'' @
     ''        height: 2.5rem; /* h-10 */\<newline>'' @
     ''        width: auto;\<newline>'' @
     ''        max-width: 7.5rem; /* max-w-[120px] */\<newline>'' @
     ''        object-fit: contain;\<newline>'' @
     ''        opacity: 0.6;\<newline>'' @
     ''        transition: transform 0.3s ease, filter 0.3s ease;\<newline>'' @
     ''      }\<newline>'' @
     ''\<newline>'' @
     ''      @media (min-width: 768px) { /* md breakpoint */\<newline>'' @
     ''        .logo-ticker-row {\<newline>'' @
     ''          gap: 5rem; /* md:gap-20 */\<newline>'' @
     ''        }\<newline>'' @
     ''        .logo-item {\<newline>'' @
     ''          height: 3rem; /* md:h-12 */\<newline>'' @
     ''          max-width: 10rem; /* md:max-w-[160px] */\<newline>'' @
     ''        }\<newline>'' @
     ''      }\<newline>'' @
     ''\<newline>'' @
     ''      @keyframes scroll-left {\<newline>'' @
     ''        0% { transform: translateX(0%); }\<newline>'' @
     ''        100% { transform: translateX(-33.333%); }\<newline>'' @
     ''      }\<newline>'' @
     ''\<newline>'' @
     ''      @keyframes scroll-right {\<newline>'' @
     ''        0% { transform: translateX(-33.333%); }\<newline>'' @
     ''        100% { transform: translateX(0%); }\<newline>'' @
     ''      }\<newline>'' @
     ''\<newline>'' @
     ''      @media (prefers-reduced-motion: reduce) {\<newline>'' @
     ''        .logo-ticker-row {\<newline>'' @
     ''          animation-play-state: paused !important;\<newline>'' @
     ''          animation: none !important;\<newline>'' @
     ''          transform: none !important;\<newline>'' @
     ''        }\<newline>'' @
     ''        .logo-carousel-mask {\<newline>'' @
     ''           mask-image: none !important;\<newline>'' @
     ''           -webkit-mask-image: none !important;\<newline>'' @
     ''        }\<newline>'' @
     ''      }\<newline>'' @
     ''\<newline>'' @
     ''      /* Dynamically set speed */\<newline>'' @
     ''      .logo-ticker-row {\<newline>'' @
     ''        --ticker-speed: ''\<close>

definition styles_after_speed :: string where
  \<open>styles_after_speed =
     ''s;\<newline>'' @
     ''      }\<newline>'' @
     ''    ''\<close>

text \<open>
  \<^verbatim>\<open>this._accent.replace\<close> throws a TypeError when \<^verbatim>\<open>_accent\<close> is \<^verbatim>\<open>null\<close>.
\<close>

definition getStyles :: "ticker \<Rightarrow> error + string" where
  "getStyles s =
     (case f_accent s of
        None \<Rightarrow> Inl TypeError
      | Some a \<Rightarrow>
          Inr (styles_to_accent @ a @ styles_accent_to_lighter @
               String_replace a ''0.3'' ''0.1'' @ styles_lighter_to_border @
               f_borderColor s @ styles_border_to_speed @
               Number_toString (f_speed s) @ styles_after_speed))"

subsection \<open>\<^verbatim>\<open>createTickerRowContent\<close>\<close>

definition glow_filter :: string where
  \<open>glow_filter =
     ''filter: drop-shadow(0 0 6px rgba(255,255,255,0.7)) drop-shadow(0 0 12px rgba(255,255,255,0.3));''\<close>

definition item_to_key :: string where
  \<open>item_to_key =
     ''\<newline>'' @
     ''        <div class="logo-item-wrapper" key="''\<close>

definition item_key_to_src :: string where
  \<open>item_key_to_src =
     ''">\<newline>'' @
     ''          <img\<newline>'' @
     ''            src="''\<close>

definition item_src_to_alt :: string where
  \<open>item_src_to_alt =
     ''"\<newline>'' @
     ''            alt="''\<close>

definition item_alt_to_style :: string where
  \<open>item_alt_to_style =
     ''"\<newline>'' @
     ''            class="logo-item"\<newline>'' @
     ''            style="''\<close>

definition item_after_style :: string where
  \<open>item_after_style =
     ''"\<newline>'' @
     ''          />\<newline>'' @
     ''        </div>\<newline>'' @
     ''      ''\<close>

text \<open>The two locals of the \<^verbatim>\<open>map\<close> callback.\<close>

definition glowStyle :: "jsval \<Rightarrow> error + string" where
  "glowStyle item =
     bindE (Get item ''needsGlow'') (\<lambda>g. Inr (if ToBoolean g then glow_filter else []))"

definition scaleStyle :: "jsval \<Rightarrow> error + string" where
  "scaleStyle item =
     bindE (Get item ''scale'') (\<lambda>sc.
       if ToBoolean sc
       then bindE (ToString sc) (\<lambda>t. Inr (''transform: scale('' @ t @ '');''))
       else Inr [])"

text \<open>The \<^verbatim>\<open>key\<close> attribute: \<^verbatim>\<open>${item.name}-${index}\<close>.\<close>

definition itemKey :: "string \<Rightarrow> nat \<Rightarrow> string" where
  "itemKey name index = name @ ''-'' @ dec_digits index"

text \<open>The body of the callback: the markup of one item, at its index.\<close>

definition tickerItem :: "jsval \<Rightarrow> nat \<Rightarrow> error + string" where
  "tickerItem item index =
     bindE (glowStyle item) (\<lambda>glow.
     bindE (scaleStyle item) (\<lambda>scale.
     bindE (Get item ''name'') (\<lambda>n.
     bindE (ToString n) (\<lambda>name.
     bindE (Get item ''logo'') (\<lambda>l.
     bindE (ToString l) (\<lambda>logo.
       Inr (item_to_key @ itemKey name index @ item_key_to_src @ logo @
            item_src_to_alt @ name @ item_alt_to_style @
            scale @ '' '' @ glow @ item_after_style)))))))"

text \<open>\<^verbatim>\<open>xs.map((item, index) => ...)\<close>, stopping at the first callback that throws.\<close>

fun map_index :: "(jsval \<Rightarrow> nat \<Rightarrow> error + string) \<Rightarrow> nat \<Rightarrow> jsval list \<Rightarrow> error + string list" where
  "map_index f i [] = Inr []"
| "map_index f i (x # xs) =
     bindE (f x i) (\<lambda>y. bindE (map_index f (Suc i) xs) (\<lambda>ys. Inr (y # ys)))"

text \<open>\<^verbatim>\<open>[...items, ...items, ...items]\<close>\<close>

definition duplicatedItems :: "jsval \<Rightarrow> error + jsval list" where
  "duplicatedItems items =
     bindE (spread items) (\<lambda>a.
     bindE (spread items) (\<lambda>b.
     bindE (spread items) (\<lambda>c. Inr (a @ b @ c))))"

text \<open>The array the \<^verbatim>\<open>map\<close> returns, one string per rendered item.\<close>

definition tickerRowItems :: "jsval \<Rightarrow> error + string list" where
  "tickerRowItems items = bindE (duplicatedItems items) (map_index tickerItem 0)"

definition createTickerRowContent :: "jsval \<Rightarrow> error + string" where
  "createTickerRowContent items = bindE (tickerRowItems items) (\<lambda>ys. Inr (concat ys))"

subsection \<open>\<^verbatim>\<open>render\<close> and \<^verbatim>\<open>updateStyles\<close>\<close>

definition template_to_styles :: string where
  \<open>template_to_styles =
     ''\<newline>'' @
     ''        <style>''\<close>

definition template_styles_to_speed :: string where
  \<open>template_styles_to_speed =
     ''</style>\<newline>'' @
     ''        <section class="logo-ticker-section">\<newline>'' @
     ''          <div class="logo-ticker-container">\<newline>'' @
     ''            <div class="logo-carousel-mask">\<newline>'' @
     ''              <div class="logo-ticker-row" style="animation-duration: ''\<close>

definition template_speed_to_row :: string where
  \<open>template_speed_to_row =
     ''s;">\<newline>'' @
     ''                ''\<close>

definition template_after_row :: string where
  \<open>template_after_row =
     ''\<newline>'' @
     ''              </div>\<newline>'' @
     ''            </div>\<newline>'' @
     ''          </div>\<newline>'' @
     ''        </section>\<newline>'' @
     ''      ''\<close>

text \<open>
  \<^verbatim>\<open>render\<close> first empties the shadow root, then evaluates the template literal
  (which throws when \<^verbatim>\<open>getStyles\<close> or \<^verbatim>\<open>createTickerRowContent\<close> does), then
  installs the result. The \<^verbatim>\<open><style>\<close> element the template opens with becomes the
  first one of the shadow root; its text is taken to be the interpolated style sheet
  (the platform's parser would end it early at a \<^verbatim>\<open></style>\<close> inside the accent,
  and \<^verbatim>\<open>updateStyles\<close>, which follows in \<^verbatim>\<open>attributeChangedCallback\<close>, then sets
  the whole text).
\<close>

definition render :: "ticker \<Rightarrow> completion \<times> ticker" where
  "render s =
     (let s0 = s\<lparr>shadowRoot := \<lparr>innerHTML = [], styleTag = None\<rparr>,
                 rebuilds := Suc (rebuilds s)\<rparr>
      in case getStyles s of
           Inl e \<Rightarrow> (Throw e, s0)
         | Inr css \<Rightarrow>
             (case createTickerRowContent (f_logos s) of
                Inl e \<Rightarrow> (Throw e, s0)
              | Inr row \<Rightarrow>
                  (Normal,
                   s0\<lparr>shadowRoot :=
                        \<lparr>innerHTML =
                           template_to_styles @ css @ template_styles_to_speed @
                           Number_toString (f_speed s) @ template_speed_to_row @
                           row @ template_after_row,
                         styleTag = Some css\<rparr>\<rparr>)))"

text \<open>
  \<^verbatim>\<open>updateStyles\<close> sets the text of the first \<^verbatim>\<open><style>\<close> element, or puts a new
  one in front when there is none: in both cases the first \<^verbatim>\<open><style>\<close> element then
  holds the current style sheet.
\<close>

definition updateStyles :: "ticker \<Rightarrow> completion \<times> ticker" where
  "updateStyles s =
     (case getStyles s of
        Inl e \<Rightarrow> (Throw e, s)
      | Inr css \<Rightarrow> (Normal, s\<lparr>shadowRoot := (shadowRoot s)\<lparr>styleTag := Some css\<rparr>\<rparr>))"

subsection \<open>The constructor and the lifecycle callbacks\<close>

definition initial_fields :: ticker where
  "initial_fields =
     \<lparr>f_accent = Some ''hsl(var(--muted) / 0.3)'',
      f_borderColor = ''hsl(var(--border) / 0.3)'',
      f_speed = Dec 90 0,
      f_direction = ''left'',
      f_logos = JArray [],
      shadowRoot = \<lparr>innerHTML = [], styleTag = None\<rparr>,
      console_errors = [],
      rebuilds = 0\<rparr>"

definition constructor :: "completion \<times> ticker" where
  "constructor = updateStyles initial_fields"

text \<open>An attribute value where a string is expected: \<^verbatim>\<open>null\<close> reads \<^verbatim>\<open>"null"\<close>.\<close>

definition attr_string :: "string option \<Rightarrow> string" where
  "attr_string v = (case v of None \<Rightarrow> ''null'' | Some x \<Rightarrow> x)"

definition invalid_data_json :: string where
  "invalid_data_json = ''solar-logo-ticker: Invalid data-json provided''"

text \<open>The \<^verbatim>\<open>switch\<close> of \<^verbatim>\<open>attributeChangedCallback\<close>.\<close>

definition assign_attribute :: "string \<Rightarrow> string option \<Rightarrow> ticker \<Rightarrow> ticker" where
  "assign_attribute name newValue s =
     (if name = ''accent'' then s\<lparr>f_accent := newValue\<rparr>
      else if name = ''speed'' then
        s\<lparr>f_speed :=
            (let v = parseFloat (attr_string newValue)
             in if number_truthy v then v else Dec 90 0)\<rparr>
      else if name = ''direction'' then
        s\<lparr>f_direction := (if newValue = Some ''right'' then ''right'' else ''left'')\<rparr>
      else if name = ''data-json'' then
        (case JSON_parse (attr_string newValue) of
           Inr v \<Rightarrow> s\<lparr>f_logos := v\<rparr>
         | Inl e \<Rightarrow>
             s\<lparr>console_errors := console_errors s @ [invalid_data_json],
               f_logos := getDefaultLogos\<rparr>)
      else s)"

definition attributeChangedCallback ::
  "string \<Rightarrow> string option \<Rightarrow> string option \<Rightarrow> ticker \<Rightarrow> completion \<times> ticker" where
  "attributeChangedCallback name oldValue newValue s =
     (if oldValue = newValue then (Normal, s)
      else
        (case render (assign_attribute name newValue s) of
           (Throw e, s') \<Rightarrow> (Throw e, s')
         | (Normal, s') \<Rightarrow> updateStyles s'))"

text \<open>
  \<^verbatim>\<open>parseAttributes\<close> reads the host element's attributes through
  \<^verbatim>\<open>getAttribute\<close>, here the first argument. \<^verbatim>\<open>x || y\<close> is \<open>y\<close> when \<open>x\<close> is
  \<^verbatim>\<open>null\<close> or the empty string.
\<close>

definition or_else :: "string option \<Rightarrow> string option \<Rightarrow> string option" where
  "or_else x y = (case x of None \<Rightarrow> y | Some v \<Rightarrow> if v = [] then y else Some v)"

definition parseAttributes :: "(string \<Rightarrow> string option) \<Rightarrow> ticker \<Rightarrow> ticker" where
  "parseAttributes getAttribute s =
     (let s1 = s\<lparr>f_accent := or_else (getAttribute ''accent'') (f_accent s)\<rparr>;
          v = parseFloat (attr_string (or_else (getAttribute ''speed'') (Some ''90'')));
          s2 = s1\<lparr>f_speed := (if number_truthy v then v else f_speed s1)\<rparr>;
          s3 = s2\<lparr>f_direction :=
                     (if getAttribute ''direction'' = Some ''right'' then ''right'' else ''left'')\<rparr>
      in case or_else (getAttribute ''data-json'') None of
           Some dataJson \<Rightarrow>
             (case JSON_parse dataJson of
                Inr v \<Rightarrow> s3\<lparr>f_logos := v\<rparr>
              | Inl e \<Rightarrow>
                  s3\<lparr>console_errors := console_errors s3 @ [invalid_data_json],
                     f_logos := getDefaultLogos\<rparr>)
         | None \<Rightarrow> s3\<lparr>f_logos := getDefaultLogos\<rparr>)"

definition connectedCallback :: "(string \<Rightarrow> string option) \<Rightarrow> ticker \<Rightarrow> completion \<times> ticker" where
  "connectedCallback getAttribute s = render (parseAttributes getAttribute s)"

definition disconnectedCallback :: "ticker \<Rightarrow> completion \<times> ticker" where
  "disconnectedCallback s = (Normal, s)"

section \<open>Predicates the properties are stated with\<close>

text \<open>
  The declared type of the logo list's entries,
  \<^verbatim>\<open>{ name: string; logo: string; needsGlow?: boolean; scale?: number }\<close>
  (\<^verbatim>\<open>LogoItem\<close> in the source's documentation).
\<close>

definition is_LogoItem :: "jsval \<Rightarrow> bool" where
  "is_LogoItem v =
     (case v of
        JObject ms \<Rightarrow>
          (case map_of ms ''name'' of Some (JString n) \<Rightarrow> True | _ \<Rightarrow> False) \<and>
          (case map_of ms ''logo'' of Some (JString l) \<Rightarrow> True | _ \<Rightarrow> False) \<and>
          (case map_of ms ''needsGlow'' of None \<Rightarrow> True | Some (JBool b) \<Rightarrow> True | _ \<Rightarrow> False) \<and>
          (case map_of ms ''scale'' of None \<Rightarrow> True | Some (JNumber x) \<Rightarrow> True | _ \<Rightarrow> False)
      | _ \<Rightarrow> False)"

text \<open>
  The specification's invariant of a logo entry: name and image reference are not
  empty, and a scale, where present, is a positive finite number.
\<close>

definition LogoEntry_invariant :: "jsval \<Rightarrow> bool" where
  "LogoEntry_invariant v =
     (case v of
        JObject ms \<Rightarrow>
          (case map_of ms ''name'' of Some (JString n) \<Rightarrow> n \<noteq> [] | _ \<Rightarrow> False) \<and>
          (case map_of ms ''logo'' of Some (JString l) \<Rightarrow> l \<noteq> [] | _ \<Rightarrow> False) \<and>
          (case map_of ms ''scale'' of
             None \<Rightarrow> True
           | Some (JNumber (Dec m e)) \<Rightarrow> 0 < m
           | _ \<Rightarrow> False)
      | _ \<Rightarrow> False)"


text \<open>How often a text occurs in another.\<close>

fun count_sub :: "string \<Rightarrow> string \<Rightarrow> nat" where
  "count_sub pat [] = 0"
| "count_sub pat (c # cs) = (if prefix pat (c # cs) then 1 else 0) + count_sub pat cs"

text \<open>
  The shadow root is in sync with the configuration when \<^verbatim>\<open>render\<close> would build
  exactly the subtree that is there.
\<close>

definition in_sync :: "ticker \<Rightarrow> bool" where
  "in_sync s =
     (case render s of
        (Normal, s') \<Rightarrow> shadowRoot s' = shadowRoot s
      | (Throw e, s') \<Rightarrow> False)"

section \<open>Attribute values used as examples\<close>

text \<open>A JSON array whose one record has a name and no image.\<close>

definition record_without_logo :: string where
  \<open>record_without_logo = ''[{"name":"A"}]''\<close>

text \<open>The specification's example of valid logo data.\<close>

definition spec_example :: string where
  \<open>spec_example = ''[{"name":"A","logo":"x.png"}]''\<close>

text \<open>A record whose scale is the default, 1.\<close>

definition default_scale_json :: string where
  \<open>default_scale_json = ''[{"name":"A","logo":"x.png","scale":1}]''\<close>

text \<open>A logo record with both optional fields.\<close>

definition scaled_glowing_entry :: jsval where
  "scaled_glowing_entry =
     JObject [(''name'', JString ''A''), (''logo'', JString ''x.png''),
              (''scale'', JNumber (Dec 15 (- 1))), (''needsGlow'', JBool True)]"

section \<open>Properties\<close>

subsection \<open>Frame lemmas\<close>

lemma bindE_simps [simp]:
  "bindE (Inr x) f = f x"
  "bindE (Inl e) f = Inl e"
  by (simp_all add: bindE_def)

text \<open>\<^verbatim>\<open>render\<close> and \<^verbatim>\<open>updateStyles\<close> write the shadow root only.\<close>

lemma render_fields:
  assumes "render s = (c, s')"
  shows "f_accent s' = f_accent s" "f_borderColor s' = f_borderColor s"
    "f_speed s' = f_speed s" "f_direction s' = f_direction s" "f_logos s' = f_logos s"
    "console_errors s' = console_errors s" "rebuilds s' = Suc (rebuilds s)"
  using assms by (auto simp: render_def Let_def split: sum.splits)

lemma updateStyles_fields:
  assumes "updateStyles s = (c, s')"
  shows "f_accent s' = f_accent s" "f_borderColor s' = f_borderColor s"
    "f_speed s' = f_speed s" "f_direction s' = f_direction s" "f_logos s' = f_logos s"
    "console_errors s' = console_errors s" "rebuilds s' = rebuilds s"
  using assms by (auto simp: updateStyles_def split: sum.splits)

text \<open>
  After a processed change the fields are those the \<^verbatim>\<open>switch\<close> assigned, whether the
  call returned or threw.
\<close>

lemma changed_fields:
  assumes "oldValue \<noteq> newValue"
    and "attributeChangedCallback name oldValue newValue s = (c, s')"
  shows "f_accent s' = f_accent (assign_attribute name newValue s)"
    "f_borderColor s' = f_borderColor (assign_attribute name newValue s)"
    "f_speed s' = f_speed (assign_attribute name newValue s)"
    "f_direction s' = f_direction (assign_attribute name newValue s)"
    "f_logos s' = f_logos (assign_attribute name newValue s)"
    "console_errors s' = console_errors (assign_attribute name newValue s)"
    "rebuilds s' = Suc (rebuilds (assign_attribute name newValue s))"
proof -
  obtain c1 s1 where r: "render (assign_attribute name newValue s) = (c1, s1)"
    by (cases "render (assign_attribute name newValue s)")
  have "s' = s1 \<or> updateStyles s1 = (c, s')"
    using assms r by (cases c1) (auto simp: attributeChangedCallback_def)
  then show "f_accent s' = f_accent (assign_attribute name newValue s)"
    "f_borderColor s' = f_borderColor (assign_attribute name newValue s)"
    "f_speed s' = f_speed (assign_attribute name newValue s)"
    "f_direction s' = f_direction (assign_attribute name newValue s)"
    "f_logos s' = f_logos (assign_attribute name newValue s)"
    "console_errors s' = console_errors (assign_attribute name newValue s)"
    "rebuilds s' = Suc (rebuilds (assign_attribute name newValue s))"
    using render_fields [OF r] updateStyles_fields [of s1 c s'] by auto
qed

lemma getStyles_shadow [simp]:
  "getStyles (s\<lparr>shadowRoot := r\<rparr>) = getStyles s"
  "getStyles (s\<lparr>rebuilds := n\<rparr>) = getStyles s"
  by (simp_all add: getStyles_def split: option.splits)

lemma render_Normal:
  assumes "render s = (Normal, s')"
  obtains css row where "getStyles s = Inr css" "createTickerRowContent (f_logos s) = Inr row"
    "s' = s\<lparr>shadowRoot :=
              \<lparr>innerHTML = template_to_styles @ css @ template_styles_to_speed @
                   Number_toString (f_speed s) @ template_speed_to_row @ row @ template_after_row,
               styleTag = Some css\<rparr>,
            rebuilds := Suc (rebuilds s)\<rparr>"
  using assms by (auto simp: render_def Let_def split: sum.splits)

text \<open>What \<^verbatim>\<open>render\<close> builds depends on the configuration only.\<close>

lemma render_again:
  assumes "render s = (Normal, s')"
  shows "render s' = (Normal, s'\<lparr>rebuilds := Suc (rebuilds s')\<rparr>)"
    and "updateStyles s' = (Normal, s')"
proof -
  from assms obtain css row where r: "getStyles s = Inr css"
    "createTickerRowContent (f_logos s) = Inr row"
    "s' = s\<lparr>shadowRoot :=
              \<lparr>innerHTML = template_to_styles @ css @ template_styles_to_speed @
                   Number_toString (f_speed s) @ template_speed_to_row @ row @ template_after_row,
               styleTag = Some css\<rparr>,
            rebuilds := Suc (rebuilds s)\<rparr>"
    by (rule render_Normal)
  show "render s' = (Normal, s'\<lparr>rebuilds := Suc (rebuilds s')\<rparr>)"
    unfolding r(3) using r(1,2) by (simp add: render_def)
  show "updateStyles s' = (Normal, s')"
    unfolding r(3) using r(1) by (simp add: updateStyles_def)
qed

text \<open>The state a new element starts with, and the row of an empty logo list.\<close>

lemma constructor_state:
  "constructor =
     (Normal, initial_fields\<lparr>shadowRoot :=
        \<lparr>innerHTML = [], styleTag = Some (projr (getStyles initial_fields))\<rparr>\<rparr>)"
  by (simp add: constructor_def updateStyles_def getStyles_def initial_fields_def)


subsection \<open>An unchanged value\<close>

text \<open>
  Claim C5. An attribute-change event whose old value equals its new value (two equal
  strings, or \<^verbatim>\<open>null\<close> twice) is a no-op, for every attribute name: the callback
  returns normally and the state it leaves is the state it found, so no field of the
  configuration has changed, the shadow root is untouched and the count of rebuilds is
  the same.
\<close>

theorem unchanged_value_is_noop:
  "attributeChangedCallback name v v s = (Normal, s)"
  by (simp add: attributeChangedCallback_def)

subsection \<open>The gradient of the container\<close>

text \<open>
  \<^verbatim>\<open>replace\<close> with a string pattern rewrites the first occurrence only, and leaves a
  text without the pattern as it is.
\<close>

lemma String_replace_absent:
  "pat \<noteq> [] \<Longrightarrow> \<not> sublist pat s \<Longrightarrow> String_replace s pat rep = s"
  by (induction s) (auto simp: sublist_Cons_right)

lemma prefix_within:
  assumes "prefix p (xs @ ys)" "length p \<le> length xs"
  shows "prefix p xs"
proof -
  from assms(1) obtain zs where "xs @ ys = p @ zs"
    by (auto simp: prefix_def)
  with assms(2) have "p = take (length p) xs"
    by (metis append_eq_conv_conj take_append diff_is_0_eq' take0 append_Nil2)
  then show ?thesis
    by (metis take_is_prefix)
qed

lemma String_replace_first:
  assumes "pat \<noteq> []" "\<not> sublist pat (pre @ butlast pat)"
  shows "String_replace (pre @ pat @ post) pat rep = pre @ rep @ post"
  using assms
proof (induction pre)
  case Nil
  then show ?case
    by (cases pat) simp_all
next
  case (Cons c pre)
  have "\<not> prefix pat (c # pre @ pat @ post)"
  proof
    assume "prefix pat (c # pre @ pat @ post)"
    moreover have "pat @ post = butlast pat @ last pat # post"
      using Cons.prems(1) by (metis append_butlast_last_id append_Cons append_Nil append_assoc)
    ultimately have "prefix pat ((c # pre @ butlast pat) @ (last pat # post))"
      by simp
    then have "prefix pat (c # pre @ butlast pat)"
      by (rule prefix_within) (use Cons.prems(1) in \<open>simp add: Suc_leI\<close>)
    with Cons.prems(2) show False
      by (simp add: sublist_Cons_right)
  qed
  moreover have "\<not> sublist pat (pre @ butlast pat)"
    using Cons.prems(2) by (simp add: sublist_Cons_right)
  ultimately show ?case
    using Cons.IH Cons.prems(1) by simp
qed

lemma gradient_declaration:
  "suffix ''background: linear-gradient(180deg, '' styles_to_accent \<and>
   prefix '' 100%);'' styles_lighter_to_border"
  by code_simp

text \<open>
  Claim C7. Let a processed change set the \<^verbatim>\<open>accent\<close> attribute to any string \<open>a\<close>.
  The string is stored as it is, and the style sheet declares the container's
  background as \<^verbatim>\<open>linear-gradient(180deg, a 0%, a' 100%)\<close>: the text before the first
  stop ends with \<^verbatim>\<open>background: linear-gradient(180deg, \<close>, the first stop is \<open>a\<close>
  verbatim, and the second stop \<open>a'\<close> is \<open>a\<close> with its first occurrence of
  \<^verbatim>\<open>0.3\<close> replaced by \<^verbatim>\<open>0.1\<close> (whenever \<open>a\<close> is \<open>pre @ 0.3 @ post\<close> and no
  occurrence starts earlier, \<open>a'\<close> is \<open>pre @ 0.1 @ post\<close>). When \<open>a\<close> does not contain
  \<^verbatim>\<open>0.3\<close>, the second stop is \<open>a\<close> unchanged.
\<close>

theorem gradient_background:
  assumes "oldValue \<noteq> Some a"
    and "attributeChangedCallback ''accent'' oldValue (Some a) s = (c, s')"
  shows "f_accent s' = Some a \<and>
    getStyles s' =
      Inr (styles_to_accent @ a @ '' 0%, '' @ String_replace a ''0.3'' ''0.1'' @
           styles_lighter_to_border @ f_borderColor s @ styles_border_to_speed @
           Number_toString (f_speed s) @ styles_after_speed) \<and>
    suffix ''background: linear-gradient(180deg, '' styles_to_accent \<and>
    prefix '' 100%);'' styles_lighter_to_border \<and>
    (\<forall>pre post. a = pre @ ''0.3'' @ post \<and> \<not> sublist ''0.3'' (pre @ ''0.'') \<longrightarrow>
       String_replace a ''0.3'' ''0.1'' = pre @ ''0.1'' @ post) \<and>
    (\<not> sublist ''0.3'' a \<longrightarrow> String_replace a ''0.3'' ''0.1'' = a)"
proof -
  have acc: "f_accent s' = Some a" and bc: "f_borderColor s' = f_borderColor s"
    and sp: "f_speed s' = f_speed s"
    using changed_fields(1-3) [OF assms] by (simp_all add: assign_attribute_def)
  have first: "String_replace (pre @ ''0.3'' @ post) ''0.3'' ''0.1'' = pre @ ''0.1'' @ post"
    if "\<not> sublist ''0.3'' (pre @ ''0.'')" for pre post
    using String_replace_first [of "''0.3''" pre post "''0.1''"] that by simp
  have absent: "String_replace a ''0.3'' ''0.1'' = a" if "\<not> sublist ''0.3'' a"
    using String_replace_absent [of "''0.3''" a "''0.1''"] that by simp
  have "getStyles s' =
      Inr (styles_to_accent @ a @ '' 0%, '' @ String_replace a ''0.3'' ''0.1'' @
           styles_lighter_to_border @ f_borderColor s @ styles_border_to_speed @
           Number_toString (f_speed s) @ styles_after_speed)"
    by (simp add: getStyles_def acc bc sp styles_accent_to_lighter_def)
  with acc first absent gradient_declaration show ?thesis
    by blast
qed

text \<open>
  The theorem at the accent \<^verbatim>\<open>rgba(0.3, 0.3)\<close>, set on a newly constructed element:
  only the first \<^verbatim>\<open>0.3\<close> becomes \<^verbatim>\<open>0.1\<close>.
\<close>

theorem gradient_background_witness:
  "(None :: string option) \<noteq> Some ''rgba(0.3, 0.3)'' \<and>
   \<not> sublist ''0.3'' (''rgba('' @ ''0.'') \<and>
   getStyles (snd (attributeChangedCallback ''accent'' None (Some ''rgba(0.3, 0.3)'') (snd constructor))) =
      Inr (styles_to_accent @ ''rgba(0.3, 0.3)'' @ '' 0%, '' @ ''rgba(0.1, 0.3)'' @
           styles_lighter_to_border @ ''hsl(var(--border) / 0.3)'' @ styles_border_to_speed @
           ''90'' @ styles_after_speed)"
proof -
  obtain c s' where r:
    "attributeChangedCallback ''accent'' None (Some ''rgba(0.3, 0.3)'') (snd constructor) = (c, s')"
    by (cases "attributeChangedCallback ''accent'' None (Some ''rgba(0.3, 0.3)'') (snd constructor)")
  have ns: "\<not> sublist ''0.3'' (''rgba('' @ ''0.'')"
    by code_simp
  have b: "f_borderColor (snd constructor) = ''hsl(var(--border) / 0.3)''"
    and sp: "Number_toString (f_speed (snd constructor)) = ''90''"
    by code_simp+
  have g: "getStyles s' =
      Inr (styles_to_accent @ ''rgba(0.3, 0.3)'' @ '' 0%, '' @
           String_replace ''rgba(0.3, 0.3)'' ''0.3'' ''0.1'' @
           styles_lighter_to_border @ f_borderColor (snd constructor) @ styles_border_to_speed @
           Number_toString (f_speed (snd constructor)) @ styles_after_speed)"
    and f: "\<forall>pre post. ''rgba(0.3, 0.3)'' = pre @ ''0.3'' @ post \<and>
         \<not> sublist ''0.3'' (pre @ ''0.'') \<longrightarrow>
         String_replace ''rgba(0.3, 0.3)'' ''0.3'' ''0.1'' = pre @ ''0.1'' @ post"
    using gradient_background [OF _ r] by simp_all
  from f [rule_format, of "''rgba(''" "'', 0.3)''"] ns
  have "String_replace ''rgba(0.3, 0.3)'' ''0.3'' ''0.1'' = ''rgba(0.1, 0.3)''"
    by simp
  with g b sp ns r show ?thesis
    by simp
qed

subsection \<open>The loop duration\<close>




subsection \<open>A logo list that is not an array\<close>

text \<open>
  Claim C2 says that no change of an observed attribute throws past the component and
  that something is always rendered. The code breaks it on \<^verbatim>\<open>data-json="null"\<close>: the
  text is well-formed JSON, so \<^verbatim>\<open>JSON.parse\<close> returns \<^verbatim>\<open>null\<close> with no exception for
  the \<^verbatim>\<open>catch\<close> to turn into the fallback set, \<^verbatim>\<open>_logos\<close> becomes \<^verbatim>\<open>null\<close>, and
  \<^verbatim>\<open>render\<close>, having emptied the shadow root, throws a TypeError at the spread
  \<^verbatim>\<open>[...items]\<close>. The exception leaves \<^verbatim>\<open>attributeChangedCallback\<close>, and the shadow
  root stays empty. The same happens for \<^verbatim>\<open>data-json="{}"\<close> (an object is not
  iterable) and for \<^verbatim>\<open>data-json="[null]"\<close> (reading \<^verbatim>\<open>item.needsGlow\<close> of
  \<^verbatim>\<open>null\<close>).
\<close>

theorem non_array_data_json_throws:
  "JSON_parse ''null'' = Inr JNull \<and>
   attributeChangedCallback ''data-json'' None (Some ''null'') (snd constructor) =
     (Throw TypeError,
      (snd constructor)\<lparr>f_logos := JNull,
                        shadowRoot := \<lparr>innerHTML = [], styleTag = None\<rparr>,
                        rebuilds := 1\<rparr>) \<and>
   fst (attributeChangedCallback ''data-json'' None (Some ''{}'') (snd constructor)) =
     Throw TypeError \<and>
   fst (attributeChangedCallback ''data-json'' None (Some ''[null]'') (snd constructor)) =
     Throw TypeError"
  by code_simp

subsection \<open>Logo data that does not parse\<close>

text \<open>
  Claim C3, as the code has it. Let a processed change set \<^verbatim>\<open>data-json\<close> to any
  string \<open>v\<close>. When \<open>v\<close> is not well-formed JSON, the component logs the diagnostic and
  the logo list becomes the built-in fallback set, whole. When \<open>v\<close> is a well-formed
  JSON array, the array becomes the logo list as parsed and nothing is logged: the
  entries are not checked against the shape of a logo record.
\<close>

theorem data_json_fallback:
  assumes "oldValue \<noteq> Some v"
    and "attributeChangedCallback ''data-json'' oldValue (Some v) s = (c, s')"
  shows "(\<forall>e. JSON_parse v = Inl e \<longrightarrow>
            f_logos s' = getDefaultLogos \<and>
            console_errors s' = console_errors s @ [invalid_data_json]) \<and>
         (\<forall>L. JSON_parse v = Inr (JArray L) \<longrightarrow>
            f_logos s' = JArray L \<and> console_errors s' = console_errors s)"
  using changed_fields(5,6) [OF assms]
  by (simp add: assign_attribute_def attr_string_def)

text \<open>The theorem at the malformed text \<^verbatim>\<open>{not valid\<close>, on a new element.\<close>

theorem data_json_fallback_witness:
  "(None :: string option) \<noteq> Some ''{not valid'' \<and>
   JSON_parse ''{not valid'' = Inl SyntaxError \<and>
   f_logos (snd (attributeChangedCallback ''data-json'' None (Some ''{not valid'') (snd constructor))) =
     getDefaultLogos \<and>
   console_errors (snd (attributeChangedCallback ''data-json'' None (Some ''{not valid'') (snd constructor))) =
     [invalid_data_json]"
proof -
  have p: "JSON_parse ''{not valid'' = Inl SyntaxError"
    by code_simp
  have e: "console_errors (snd constructor) = []"
    by code_simp
  show ?thesis
    using data_json_fallback [of None "''{not valid''" "snd constructor"
        "fst (attributeChangedCallback ''data-json'' None (Some ''{not valid'') (snd constructor))"
        "snd (attributeChangedCallback ''data-json'' None (Some ''{not valid'') (snd constructor))"]
    by (simp add: p e)
qed

text \<open>
  The claim as the specification states it also sends well-formed JSON of the wrong
  shape to the fallback set, with a diagnostic. The text below is a JSON array whose
  one record has no \<^verbatim>\<open>logo\<close>; it is not a list of logo records, yet it becomes the
  logo list, nothing is logged, and the call returns normally.
\<close>

theorem wrong_shape_counterexample:
  "JSON_parse record_without_logo = Inr (JArray [JObject [(''name'', JString ''A'')]]) \<and>
   \<not> list_all is_LogoItem [JObject [(''name'', JString ''A'')]] \<and>
   fst (attributeChangedCallback ''data-json'' None (Some record_without_logo) (snd constructor)) =
     Normal \<and>
   f_logos (snd (attributeChangedCallback ''data-json'' None (Some record_without_logo) (snd constructor))) =
     JArray [JObject [(''name'', JString ''A'')]] \<and>
   JArray [JObject [(''name'', JString ''A'')]] \<noteq> getDefaultLogos \<and>
   console_errors (snd (attributeChangedCallback ''data-json'' None (Some record_without_logo) (snd constructor))) =
     []"
  by code_simp

subsection \<open>The row of the ticker\<close>

text \<open>
  \<^verbatim>\<open>map\<close> returns one string per element, the callback's result at that element and
  its index, and returns at all exactly when no callback throws.
\<close>

lemma map_index_Inr_iff:
  "map_index f i xs = Inr ys \<longleftrightarrow>
     length ys = length xs \<and> (\<forall>k<length xs. f (xs ! k) (i + k) = Inr (ys ! k))"
proof (induction xs arbitrary: i ys)
  case Nil
  then show ?case by auto
next
  case (Cons x xs)
  show ?case
  proof (cases "f x i")
    case (Inl e)
    then show ?thesis by auto
  next
    case (Inr y)
    show ?thesis
    proof (cases ys)
      case Nil
      with Inr show ?thesis
        by (auto simp: bindE_def split: sum.splits)
    next
      case (Cons y' ys')
      have "map_index f i (x # xs) = Inr (y' # ys') \<longleftrightarrow>
              y' = y \<and> map_index f (Suc i) xs = Inr ys'"
        using Inr by (auto simp: bindE_def split: sum.splits)
      also have "\<dots> \<longleftrightarrow> y' = y \<and> length ys' = length xs \<and>
              (\<forall>k<length xs. f (xs ! k) (Suc i + k) = Inr (ys' ! k))"
        by (simp add: Cons.IH)
      also have "\<dots> \<longleftrightarrow> length (y' # ys') = length (x # xs) \<and>
              (\<forall>k<length (x # xs). f ((x # xs) ! k) (i + k) = Inr ((y' # ys') ! k))"
        using Inr by (auto simp: less_Suc_eq_0_disj)
      finally show ?thesis
        using Cons by simp
    qed
  qed
qed

lemma map_index_total:
  assumes "\<And>k. k < length xs \<Longrightarrow> \<exists>y. f (xs ! k) (i + k) = Inr y"
  shows "\<exists>ys. map_index f i xs = Inr ys"
  using assms
proof (induction xs arbitrary: i)
  case Nil
  then show ?case by simp
next
  case (Cons x xs)
  from Cons.prems [of 0] obtain y where y: "f x i = Inr y"
    by auto
  have "\<exists>ys. map_index f (Suc i) xs = Inr ys"
  proof (rule Cons.IH)
    fix k assume "k < length xs"
    then show "\<exists>y. f (xs ! k) (Suc i + k) = Inr y"
      using Cons.prems [of "Suc k"] by simp
  qed
  with y show ?case
    by auto
qed

text \<open>On a well-typed logo record the callback does not throw.\<close>

lemma styles_of_LogoItem:
  assumes "is_LogoItem v"
  shows "\<exists>sc gl. scaleStyle v = Inr sc \<and> glowStyle v = Inr gl"
proof -
  from assms obtain ms where v: "v = JObject ms"
    by (cases v) (simp_all add: is_LogoItem_def)
  from assms v have "map_of ms ''scale'' = None \<or> (\<exists>x. map_of ms ''scale'' = Some (JNumber x))"
    by (auto simp: is_LogoItem_def split: option.splits jsval.splits)
  then have "\<exists>sc. scaleStyle v = Inr sc"
    unfolding v by (auto simp: scaleStyle_def)
  moreover have "\<exists>gl. glowStyle v = Inr gl"
    unfolding v by (simp add: glowStyle_def)
  ultimately show ?thesis
    by blast
qed

lemma tickerItem_of_object:
  assumes "map_of ms ''name'' = Some (JString n)" "map_of ms ''logo'' = Some (JString l)"
    and "scaleStyle (JObject ms) = Inr sc" "glowStyle (JObject ms) = Inr gl"
  shows "tickerItem (JObject ms) i =
    Inr (item_to_key @ itemKey n i @ item_key_to_src @ l @ item_src_to_alt @ n @
         item_alt_to_style @ sc @ '' '' @ gl @ item_after_style)"
  using assms by (simp add: tickerItem_def)

lemma name_of_LogoItem:
  assumes "is_LogoItem v"
  obtains ms n l where "v = JObject ms" "map_of ms ''name'' = Some (JString n)"
    "map_of ms ''logo'' = Some (JString l)"
proof -
  from assms obtain ms where v: "v = JObject ms"
    by (cases v) (simp_all add: is_LogoItem_def)
  from assms v obtain n l where "map_of ms ''name'' = Some (JString n)"
    "map_of ms ''logo'' = Some (JString l)"
    by (auto simp: is_LogoItem_def split: option.splits jsval.splits)
  with v that show ?thesis
    by blast
qed

lemma tickerItem_of_LogoItem:
  assumes "is_LogoItem v"
  shows "\<exists>html. tickerItem v i = Inr html"
proof -
  from assms obtain ms n l where v: "v = JObject ms" "map_of ms ''name'' = Some (JString n)"
    "map_of ms ''logo'' = Some (JString l)"
    by (rule name_of_LogoItem)
  from styles_of_LogoItem [OF assms] obtain sc gl
    where "scaleStyle v = Inr sc" "glowStyle v = Inr gl"
    by blast
  with v tickerItem_of_object [of ms n l sc gl i] show ?thesis
    by simp
qed

lemma duplicatedItems_array: "duplicatedItems (JArray L) = Inr (L @ L @ L)"
  by (simp add: duplicatedItems_def)

lemma tickerRowItems_of_LogoItems:
  assumes "list_all is_LogoItem L"
  shows "\<exists>items. tickerRowItems (JArray L) = Inr items \<and> length items = 3 * length L"
proof -
  have "\<exists>ys. map_index tickerItem 0 (L @ L @ L) = Inr ys"
  proof (rule map_index_total)
    fix k assume "k < length (L @ L @ L)"
    then have "(L @ L @ L) ! k \<in> set (L @ L @ L)"
      by (rule nth_mem)
    with assms have "is_LogoItem ((L @ L @ L) ! k)"
      by (auto simp: list_all_iff)
    then show "\<exists>y. tickerItem ((L @ L @ L) ! k) (0 + k) = Inr y"
      by (rule tickerItem_of_LogoItem)
  qed
  then obtain ys where ys: "map_index tickerItem 0 (L @ L @ L) = Inr ys"
    by blast
  then have "length ys = 3 * length L"
    by (simp add: map_index_Inr_iff)
  with ys show ?thesis
    by (simp add: tickerRowItems_def duplicatedItems_array)
qed

lemma triple_nth:
  assumes "k < 3 * length L"
  shows "(L @ L @ L) ! k = L ! (k mod length L)"
proof -
  let ?n = "length L"
  consider "k < ?n" | "?n \<le> k" "k - ?n < ?n" | "?n \<le> k" "?n \<le> k - ?n" "k - ?n - ?n < ?n"
    using assms by linarith
  then show ?thesis
  proof cases
    case 1
    then show ?thesis by (simp add: nth_append)
  next
    case 2
    then have "k mod ?n = k - ?n"
      by (simp add: le_mod_geq)
    with 2 show ?thesis by (simp add: nth_append)
  next
    case 3
    then have "k mod ?n = k - ?n - ?n"
      by (simp add: le_mod_geq)
    with 3 show ?thesis by (simp add: nth_append)
  qed
qed

text \<open>
  Claim C1. Let the configuration hold a logo list \<open>L\<close> of \<open>N\<close> well-typed records.
  The spread builds \<open>L @ L @ L\<close>, and \<^verbatim>\<open>createTickerRowContent\<close> emits exactly \<open>3N\<close>
  items: item \<open>k\<close> is the markup of entry \<open>k\<close> of \<open>L @ L @ L\<close>, which is entry
  \<open>k mod N\<close> of \<open>L\<close>, so the items are those of \<open>L\<close>, three times over and in order.
  The row is the concatenation of the items, and \<^verbatim>\<open>render\<close> puts it into the
  template.
\<close>

theorem triplication:
  assumes "f_logos s = JArray L" and "list_all is_LogoItem L"
  shows "duplicatedItems (f_logos s) = Inr (L @ L @ L) \<and>
    (\<exists>items. tickerRowItems (f_logos s) = Inr items \<and>
       length items = 3 * length L \<and>
       (\<forall>k<3 * length L.
          (L @ L @ L) ! k = L ! (k mod length L) \<and>
          tickerItem ((L @ L @ L) ! k) k = Inr (items ! k)) \<and>
       createTickerRowContent (f_logos s) = Inr (concat items) \<and>
       (\<forall>css. getStyles s = Inr css \<longrightarrow>
          fst (render s) = Normal \<and>
          innerHTML (shadowRoot (snd (render s))) =
            template_to_styles @ css @ template_styles_to_speed @
            Number_toString (f_speed s) @ template_speed_to_row @
            concat items @ template_after_row))"
proof -
  from tickerRowItems_of_LogoItems [OF assms(2)] obtain items
    where items: "tickerRowItems (JArray L) = Inr items" and len: "length items = 3 * length L"
    by blast
  from items have m: "map_index tickerItem 0 (L @ L @ L) = Inr items"
    by (simp add: tickerRowItems_def duplicatedItems_array)
  have nth: "tickerItem ((L @ L @ L) ! k) k = Inr (items ! k)" if "k < 3 * length L" for k
    using m that by (simp add: map_index_Inr_iff)
  have row: "createTickerRowContent (JArray L) = Inr (concat items)"
    by (simp add: createTickerRowContent_def items)
  have "fst (render s) = Normal \<and>
        innerHTML (shadowRoot (snd (render s))) =
            template_to_styles @ css @ template_styles_to_speed @
            Number_toString (f_speed s) @ template_speed_to_row @
            concat items @ template_after_row" if "getStyles s = Inr css" for css
    using that row assms(1) by (simp add: render_def)
  with items len nth row triple_nth [of _ L] assms(1) show ?thesis
    by (simp add: duplicatedItems_array)
qed

text \<open>
  The theorem at the specification's example, one record named \<^verbatim>\<open>A\<close>: three items,
  at the indices 0, 1 and 2.
\<close>

theorem triplication_witness:
  "JSON_parse spec_example = Inr (JArray [logo_entry ''A'' ''x.png'' None]) \<and>
   list_all is_LogoItem [logo_entry ''A'' ''x.png'' None] \<and>
   map_sum id length (tickerRowItems (JArray [logo_entry ''A'' ''x.png'' None])) = Inr 3 \<and>
   map_sum id (\<lambda>items. map Inr items) (tickerRowItems (JArray [logo_entry ''A'' ''x.png'' None])) =
     Inr [tickerItem (logo_entry ''A'' ''x.png'' None) 0,
          tickerItem (logo_entry ''A'' ''x.png'' None) 1,
          tickerItem (logo_entry ''A'' ''x.png'' None) 2]"
proof -
  let ?e = "logo_entry ''A'' ''x.png'' None"
  let ?s = "(snd constructor)\<lparr>f_logos := JArray [?e]\<rparr>"
  have p: "JSON_parse spec_example = Inr (JArray [?e])"
    by code_simp
  have w: "list_all is_LogoItem [?e]"
    by code_simp
  from triplication [of ?s "[?e]"] w obtain items
    where items: "tickerRowItems (JArray [?e]) = Inr items" and len: "length items = 3"
      and nth: "\<forall>k<3. tickerItem (([?e] @ [?e] @ [?e]) ! k) k = Inr (items ! k)"
    by auto
  from len obtain a b c where abc: "items = [a, b, c]"
    by (auto simp: length_Suc_conv numeral_3_eq_3)
  from nth [rule_format, of 0] nth [rule_format, of 1] nth [rule_format, of 2] abc
  have "tickerItem ?e 0 = Inr a" "tickerItem ?e 1 = Inr b" "tickerItem ?e 2 = Inr c"
    by simp_all
  with p w items abc show ?thesis
    by simp
qed

subsection \<open>The keys of the items\<close>

text \<open>
  A decimal numeral has no minus sign and determines its number, so a key determines
  its index: the index is what follows the last \<^verbatim>\<open>-\<close>.
\<close>

lemma of_char_digit_char: "d < 10 \<Longrightarrow> (of_char (digit_char d) :: nat) = 48 + d"
  by (simp add: digit_char_def)

lemma digit_char_simps:
  assumes "d < 10"
  shows "digit_char d \<noteq> CHR ''-''" "digit_val (digit_char d) = d"
proof -
  show "digit_char d \<noteq> CHR ''-''"
  proof
    assume "digit_char d = CHR ''-''"
    then have "(of_char (digit_char d) :: nat) = of_char CHR ''-''"
      by simp
    with assms show False
      by (simp add: of_char_digit_char)
  qed
  show "digit_val (digit_char d) = d"
    using assms by (simp add: digit_val_def of_char_digit_char)
qed

lemma dec_digits_no_dash: "CHR ''-'' \<notin> set (dec_digits n)"
proof (induction n rule: dec_digits.induct)
  case (1 n)
  show ?case
  proof (cases "n < 10")
    case True
    then show ?thesis
      using digit_char_simps(1) [of n] by (simp add: dec_digits.simps [of n])
  next
    case False
    with 1 show ?thesis
      using digit_char_simps(1) [of "n mod 10"] by (simp add: dec_digits.simps [of n])
  qed
qed

lemma digits_val_snoc: "digits_val (ds @ [c]) = 10 * digits_val ds + digit_val c"
  by (simp add: digits_val_def)

lemma digits_val_dec_digits: "digits_val (dec_digits n) = n"
proof (induction n rule: dec_digits.induct)
  case (1 n)
  show ?case
  proof (cases "n < 10")
    case True
    then show ?thesis
      using digit_char_simps(2) [of n] by (simp add: dec_digits.simps [of n] digits_val_def)
  next
    case False
    with 1 show ?thesis
      using digit_char_simps(2) [of "n mod 10"]
      by (simp add: dec_digits.simps [of n] digits_val_snoc)
  qed
qed

lemma dec_digits_inj:
  assumes "dec_digits i = dec_digits j"
  shows "i = j"
proof -
  from assms have "digits_val (dec_digits i) = digits_val (dec_digits j)"
    by simp
  then show ?thesis
    by (simp add: digits_val_dec_digits)
qed

lemma split_at_last_dash:
  assumes "a @ CHR ''-'' # x = b @ CHR ''-'' # y"
    and "CHR ''-'' \<notin> set x" "CHR ''-'' \<notin> set y"
  shows "a = b \<and> x = y"
  using assms
  by (auto simp: append_eq_Cons_conv Cons_eq_append_conv append_eq_append_conv2)

lemma itemKey_inj:
  assumes "itemKey n i = itemKey m j"
  shows "n = m \<and> i = j"
proof -
  from assms have "n @ CHR ''-'' # dec_digits i = m @ CHR ''-'' # dec_digits j"
    by (simp add: itemKey_def)
  then have "n = m \<and> dec_digits i = dec_digits j"
    by (rule split_at_last_dash) (rule dec_digits_no_dash)+
  then show ?thesis
    using dec_digits_inj by blast
qed

lemma key_markup: \<open>suffix ''key="'' item_to_key \<and> prefix ''">'' item_key_to_src\<close>
  by code_simp

text \<open>
  Claim C8. For a logo list \<open>L\<close> of well-typed records, the markup of item \<open>k\<close> of the
  triplicated list opens with \<^verbatim>\<open>key="\<close> followed by the entry's name, \<^verbatim>\<open>-\<close> and
  \<open>k\<close> in decimal, and the \<open>3N\<close> keys are pairwise distinct, whatever the names are.
\<close>

theorem keys_distinct:
  assumes "list_all is_LogoItem L"
  shows \<open>\<exists>names. length names = 3 * length L \<and>
     (\<forall>k<3 * length L.
        Get ((L @ L @ L) ! k) ''name'' = Inr (JString (names ! k)) \<and>
        (\<exists>rest. tickerItem ((L @ L @ L) ! k) k =
                  Inr (item_to_key @ itemKey (names ! k) k @ item_key_to_src @ rest))) \<and>
     distinct (map (\<lambda>k. itemKey (names ! k) k) [0..<3 * length L]) \<and>
     suffix ''key="'' item_to_key \<and> prefix ''">'' item_key_to_src\<close>
proof -
  define name_of where
    "name_of v = (case Get v ''name'' of Inr (JString n) \<Rightarrow> n | _ \<Rightarrow> [])" for v
  define names where "names = map name_of (L @ L @ L)"
  have len: "length names = 3 * length L"
    by (simp add: names_def)
  have item: "Get ((L @ L @ L) ! k) ''name'' = Inr (JString (names ! k)) \<and>
        (\<exists>rest. tickerItem ((L @ L @ L) ! k) k =
                  Inr (item_to_key @ itemKey (names ! k) k @ item_key_to_src @ rest))"
    if k: "k < 3 * length L" for k
  proof -
    let ?v = "(L @ L @ L) ! k"
    from k have "?v \<in> set (L @ L @ L)"
      by (intro nth_mem) simp
    with assms have v: "is_LogoItem ?v"
      by (auto simp: list_all_iff)
    then obtain ms n l where o: "?v = JObject ms" "map_of ms ''name'' = Some (JString n)"
      "map_of ms ''logo'' = Some (JString l)"
      by (rule name_of_LogoItem)
    from styles_of_LogoItem [OF v] obtain sc gl
      where st: "scaleStyle ?v = Inr sc" "glowStyle ?v = Inr gl"
      by blast
    have "names ! k = name_of ?v"
      unfolding names_def by (rule nth_map) (use k in simp)
    then have n: "names ! k = n"
      using o by (simp add: name_of_def)
    have "Get ?v ''name'' = Inr (JString n)"
      using o by simp
    moreover have "tickerItem ?v k =
        Inr (item_to_key @ itemKey n k @ item_key_to_src @
             (l @ item_src_to_alt @ n @ item_alt_to_style @ sc @ '' '' @ gl @ item_after_style))"
      using tickerItem_of_object [of ms n l sc gl k] o st by simp
    ultimately show ?thesis
      unfolding n by blast
  qed
  have "inj_on (\<lambda>k. itemKey (names ! k) k) (set [0..<3 * length L])"
    by (rule inj_onI) (use itemKey_inj in blast)
  then have "distinct (map (\<lambda>k. itemKey (names ! k) k) [0..<3 * length L])"
    by (simp add: distinct_map)
  with len item key_markup show ?thesis
    by blast
qed

text \<open>
  The theorem at a list that holds the same record twice: six items named \<^verbatim>\<open>A\<close>,
  with six different keys, \<^verbatim>\<open>A-0\<close> to \<^verbatim>\<open>A-5\<close>.
\<close>

theorem keys_distinct_witness:
  "list_all is_LogoItem [logo_entry ''A'' ''x.png'' None, logo_entry ''A'' ''x.png'' None] \<and>
   distinct [itemKey ''A'' 0, itemKey ''A'' 1, itemKey ''A'' 2,
             itemKey ''A'' 3, itemKey ''A'' 4, itemKey ''A'' 5] \<and>
   [itemKey ''A'' 0, itemKey ''A'' 5] = [''A-0'', ''A-5'']"
proof -
  let ?e = "logo_entry ''A'' ''x.png'' None"
  have w: "list_all is_LogoItem [?e, ?e]"
    by code_simp
  have u: "[0..<6] = [0, 1, 2, 3, 4, 5]"
    by code_simp
  from keys_distinct [of "[?e, ?e]"] w obtain names
    where nm: "\<forall>k<6. Get (([?e, ?e] @ [?e, ?e] @ [?e, ?e]) ! k) ''name'' = Inr (JString (names ! k))"
      and d: "distinct (map (\<lambda>k. itemKey (names ! k) k) [0..<6])"
    by auto
  have g: "Get ?e ''name'' = Inr (JString ''A'')"
    by (simp add: logo_entry_def)
  have "names ! 0 = ''A''" "names ! 1 = ''A''" "names ! 2 = ''A''"
    "names ! 3 = ''A''" "names ! 4 = ''A''" "names ! 5 = ''A''"
    using nm [rule_format, of 0] nm [rule_format, of 1] nm [rule_format, of 2]
      nm [rule_format, of 3] nm [rule_format, of 4] nm [rule_format, of 5] g
    by (simp_all add: numeral_nat)
  with d have "distinct [itemKey ''A'' 0, itemKey ''A'' 1, itemKey ''A'' 2,
             itemKey ''A'' 3, itemKey ''A'' 4, itemKey ''A'' 5]"
    unfolding u by simp
  moreover have "[itemKey ''A'' 0, itemKey ''A'' 5] = [''A-0'', ''A-5'']"
    by code_simp
  ultimately show ?thesis
    using w by simp
qed

subsection \<open>The inline style of an item\<close>

lemma style_markup: \<open>suffix ''style="'' item_alt_to_style \<and> prefix [CHR 0x22] item_after_style\<close>
  by code_simp

lemma glow_filter_terms: "count_sub ''drop-shadow('' glow_filter = 2"
  by code_simp

lemma one_and_a_half: "Number_toString (Dec 15 (- 1)) = ''1.5''"
  by code_simp

text \<open>
  Claim C6, as the code has it (the specification's \<^verbatim>\<open>glow\<close> is the field
  \<^verbatim>\<open>needsGlow\<close>). The inline style of a well-typed record's item is the scale
  fragment, a space, and the glow fragment. A scale of 1.5 gives the fragment
  \<^verbatim>\<open>transform: scale(1.5);\<close>, and any scale that is present and not zero gives
  \<^verbatim>\<open>transform: scale(x);\<close> with its number, the default 1 included; the fragment is
  empty when the scale is absent (or zero). \<^verbatim>\<open>needsGlow: true\<close> gives the filter with
  exactly two \<^verbatim>\<open>drop-shadow\<close> terms; the fragment is empty when the field is absent or
  false.
\<close>

theorem item_style:
  assumes "is_LogoItem (JObject ms)"
  shows \<open>\<exists>n l sc gl.
     scaleStyle (JObject ms) = Inr sc \<and> glowStyle (JObject ms) = Inr gl \<and>
     tickerItem (JObject ms) i =
       Inr (item_to_key @ itemKey n i @ item_key_to_src @ l @ item_src_to_alt @ n @
            item_alt_to_style @ sc @ '' '' @ gl @ item_after_style) \<and>
     suffix ''style="'' item_alt_to_style \<and> prefix [CHR 0x22] item_after_style \<and>
     (map_of ms ''scale'' = Some (JNumber (Dec 15 (- 1))) \<longrightarrow> sc = ''transform: scale(1.5);'') \<and>
     (\<forall>x. map_of ms ''scale'' = Some (JNumber x) \<longrightarrow>
        sc = (if number_truthy x then ''transform: scale('' @ Number_toString x @ '');'' else [])) \<and>
     (map_of ms ''scale'' = None \<longrightarrow> sc = []) \<and>
     (map_of ms ''needsGlow'' = Some (JBool True) \<longrightarrow>
        gl = glow_filter \<and> count_sub ''drop-shadow('' gl = 2) \<and>
     (map_of ms ''needsGlow'' = None \<or> map_of ms ''needsGlow'' = Some (JBool False) \<longrightarrow> gl = [])\<close>
proof -
  from assms obtain ms' n l where o: "JObject ms = JObject ms'"
    "map_of ms' ''name'' = Some (JString n)" "map_of ms' ''logo'' = Some (JString l)"
    by (rule name_of_LogoItem)
  then have nl: "map_of ms ''name'' = Some (JString n)" "map_of ms ''logo'' = Some (JString l)"
    by simp_all
  from styles_of_LogoItem [OF assms] obtain sc gl
    where st: "scaleStyle (JObject ms) = Inr sc" "glowStyle (JObject ms) = Inr gl"
    by blast
  have sc1: "sc = (if number_truthy x then ''transform: scale('' @ Number_toString x @ '');'' else [])"
    if "map_of ms ''scale'' = Some (JNumber x)" for x
    using st(1) that by (auto simp: scaleStyle_def)
  have sc2: "sc = []" if "map_of ms ''scale'' = None"
    using st(1) that by (simp add: scaleStyle_def)
  have sc3: "sc = ''transform: scale(1.5);''" if "map_of ms ''scale'' = Some (JNumber (Dec 15 (- 1)))"
    using sc1 [OF that] by (simp add: one_and_a_half)
  have gl1: "gl = glow_filter \<and> count_sub ''drop-shadow('' gl = 2"
    if "map_of ms ''needsGlow'' = Some (JBool True)"
    using st(2) that by (simp add: glowStyle_def glow_filter_terms)
  have gl2: "gl = []"
    if "map_of ms ''needsGlow'' = None \<or> map_of ms ''needsGlow'' = Some (JBool False)"
    using st(2) that by (auto simp: glowStyle_def)
  note item = tickerItem_of_object [OF nl st, of i]
  show ?thesis
    by (rule exI [of _ n], rule exI [of _ l], rule exI [of _ sc], rule exI [of _ gl],
        intro conjI allI impI)
      (use item st sc1 sc2 sc3 gl1 gl2 style_markup glow_filter_terms in simp_all)
qed

text \<open>The theorem at a record with \<^verbatim>\<open>scale: 1.5\<close> and \<^verbatim>\<open>needsGlow: true\<close>.\<close>

theorem item_style_witness:
  "is_LogoItem scaled_glowing_entry \<and>
   scaleStyle scaled_glowing_entry = Inr ''transform: scale(1.5);'' \<and>
   glowStyle scaled_glowing_entry = Inr glow_filter \<and>
   tickerItem scaled_glowing_entry 0 =
     Inr (item_to_key @ itemKey ''A'' 0 @ item_key_to_src @ ''x.png'' @ item_src_to_alt @ ''A'' @
          item_alt_to_style @ ''transform: scale(1.5);'' @ '' '' @ glow_filter @ item_after_style)"
proof -
  let ?ms = "[(''name'', JString ''A''), (''logo'', JString ''x.png''),
              (''scale'', JNumber (Dec 15 (- 1))), (''needsGlow'', JBool True)]"
  have w: "is_LogoItem (JObject ?ms)"
    by code_simp
  from item_style [OF w, of 0] obtain n l sc gl where
    st: "scaleStyle (JObject ?ms) = Inr sc" "glowStyle (JObject ?ms) = Inr gl"
    and sc: "sc = ''transform: scale(1.5);''" and gl: "gl = glow_filter"
    by auto
  have "tickerItem (JObject ?ms) 0 =
     Inr (item_to_key @ itemKey ''A'' 0 @ item_key_to_src @ ''x.png'' @ item_src_to_alt @ ''A'' @
          item_alt_to_style @ sc @ '' '' @ gl @ item_after_style)"
    using tickerItem_of_object [of ?ms "''A''" "''x.png''" sc gl 0] st by simp
  with w st sc gl show ?thesis
    by (simp add: scaled_glowing_entry_def)
qed

text \<open>
  The claim as the specification states it leaves the transform out when the scale is
  the default. A record with \<^verbatim>\<open>scale: 1\<close> gets \<^verbatim>\<open>transform: scale(1);\<close> in its
  item's markup.
\<close>

theorem default_scale_counterexample:
  "JSON_parse default_scale_json = Inr (JArray [logo_entry ''A'' ''x.png'' (Some (Dec 1 0))]) \<and>
   Number_toString (Dec 1 0) = ''1'' \<and>
   scaleStyle (logo_entry ''A'' ''x.png'' (Some (Dec 1 0))) = Inr ''transform: scale(1);'' \<and>
   map_sum id (sublist ''transform: scale(1);'')
     (tickerItem (logo_entry ''A'' ''x.png'' (Some (Dec 1 0))) 0) = Inr True"
  by code_simp

subsection \<open>The built-in logo set\<close>

lemma default_logos_list:
  "(case getDefaultLogos of
      JArray L \<Rightarrow> length L = 23 \<and> list_all LogoEntry_invariant L \<and> list_all is_LogoItem L
    | _ \<Rightarrow> False)"
  by code_simp

lemma not_valid_is_malformed: "JSON_parse ''{not valid'' = Inl SyntaxError"
  by code_simp

text \<open>Rendering well-typed logo records with an accent that is set does not throw.\<close>

lemma render_LogoItems:
  assumes "f_accent s = Some a" "f_logos s = JArray L" "list_all is_LogoItem L"
  shows "fst (render s) = Normal"
proof -
  from tickerRowItems_of_LogoItems [OF assms(3)] obtain items
    where "tickerRowItems (JArray L) = Inr items"
    by blast
  then have "createTickerRowContent (f_logos s) = Inr (concat items)"
    by (simp add: createTickerRowContent_def assms(2))
  with assms(1) show ?thesis
    by (simp add: render_def getStyles_def)
qed

lemma callback_returns:
  assumes "oldValue \<noteq> newValue"
    and "fst (render (assign_attribute name newValue s)) = Normal"
  shows "fst (attributeChangedCallback name oldValue newValue s) = Normal"
proof -
  obtain s1 where r: "render (assign_attribute name newValue s) = (Normal, s1)"
    using assms(2) by (cases "render (assign_attribute name newValue s)") simp
  with render_again(2) [OF r] assms(1) show ?thesis
    by (simp add: attributeChangedCallback_def)
qed

text \<open>
  Claim C9. The built-in fallback set has exactly 23 entries, each with a name and an
  image reference that are not empty and, where it has a scale, a positive finite one.
  The malformed \<^verbatim>\<open>data-json\<close> of the specification's example, \<^verbatim>\<open>{not valid\<close>,
  set on a new element, is a syntax error: the call returns normally, the diagnostic is
  logged, the fallback set is the logo list, and the fallback set renders as 69 items.
\<close>

theorem default_logos:
  "(case getDefaultLogos of
      JArray L \<Rightarrow> length L = 23 \<and> list_all LogoEntry_invariant L
    | _ \<Rightarrow> False) \<and>
   JSON_parse ''{not valid'' = Inl SyntaxError \<and>
   fst (attributeChangedCallback ''data-json'' None (Some ''{not valid'') (snd constructor)) = Normal \<and>
   f_logos (snd (attributeChangedCallback ''data-json'' None (Some ''{not valid'') (snd constructor))) =
     getDefaultLogos \<and>
   console_errors (snd (attributeChangedCallback ''data-json'' None (Some ''{not valid'') (snd constructor))) =
     [invalid_data_json] \<and>
   map_sum id length (tickerRowItems getDefaultLogos) = Inr 69"
proof -
  let ?r = "attributeChangedCallback ''data-json'' None (Some ''{not valid'') (snd constructor)"
  from default_logos_list obtain L where L: "getDefaultLogos = JArray L" "length L = 23"
    "list_all LogoEntry_invariant L" "list_all is_LogoItem L"
    by (auto split: jsval.splits)
  from tickerRowItems_of_LogoItems [OF L(4)] L(2)
  have n: "map_sum id length (tickerRowItems (JArray L)) = Inr 69"
    by auto
  have a: "assign_attribute ''data-json'' (Some ''{not valid'') (snd constructor) =
      (snd constructor)\<lparr>console_errors := console_errors (snd constructor) @ [invalid_data_json],
                        f_logos := getDefaultLogos\<rparr>"
    by (simp add: assign_attribute_def attr_string_def not_valid_is_malformed)
  have e: "console_errors (snd constructor) = []"
    by (simp add: constructor_state initial_fields_def)
  have f: "f_logos (snd ?r) = getDefaultLogos" "console_errors (snd ?r) = [invalid_data_json]"
    using changed_fields(5,6) [of None "Some ''{not valid''" "''data-json''" "snd constructor"
        "fst ?r" "snd ?r"]
    by (simp_all add: a e)
  have "fst (render (assign_attribute ''data-json'' (Some ''{not valid'') (snd constructor))) = Normal"
    unfolding a
    by (rule render_LogoItems [where L = L])
       (simp_all add: L constructor_state initial_fields_def)
  then have c: "fst ?r = Normal"
    by (intro callback_returns) simp_all
  have i: "(case getDefaultLogos of
      JArray L \<Rightarrow> length L = 23 \<and> list_all LogoEntry_invariant L
    | _ \<Rightarrow> False)"
    unfolding L(1) using L(2,3) by simp
  from n have n': "map_sum id length (tickerRowItems getDefaultLogos) = Inr 69"
    by (simp add: L(1))
  from i not_valid_is_malformed c f n' show ?thesis
    by (intro conjI)
qed

subsection \<open>A change of \<^verbatim>\<open>variant\<close>\<close>

text \<open>
  Every call that renders and returns leaves the shadow root in sync with the
  configuration: \<^verbatim>\<open>connectedCallback\<close>, and every processed attribute change.
\<close>

lemma render_in_sync: "render s = (Normal, s') \<Longrightarrow> in_sync s'"
  by (simp add: in_sync_def render_again(1))

lemma connectedCallback_in_sync:
  "connectedCallback getAttribute s = (Normal, s') \<Longrightarrow> in_sync s'"
  unfolding connectedCallback_def by (rule render_in_sync)






end
